theory Spec2Isabelle
  imports Complex_Main
begin

section \<open>Values, responses and exceptions\<close>

text \<open>
  The authenticated request pipeline of \<^verbatim>\<open>insights_sdk\<close>: the token cache and the
  token refresh of \<^verbatim>\<open>auth.py\<close> (\<^verbatim>\<open>AuthClient\<close>, \<^verbatim>\<open>AsyncAuthClient\<close>) and the request
  executor of \<^verbatim>\<open>client.py\<close> (\<^verbatim>\<open>InsightsClient._post\<close>, \<^verbatim>\<open>AsyncInsightsClient._post\<close>).
  Python floats (\<^verbatim>\<open>time.time()\<close>, \<^verbatim>\<open>retry_backoff\<close>) are idealised as reals, Python
  ints are \<^typ>\<open>int\<close>.

  A decoded JSON document is a Python value; a dict is kept as an association list and
  read with \<^const>\<open>map_of\<close>.
\<close>

datatype json =
    JNull
  | JBool bool
  | JNum real
  | JStr string
  | JList "json list"
  | JDict "(string \<times> json) list"

text \<open>Python's truth value of a decoded value, as tested by \<^verbatim>\<open>if not self._access_token\<close>.\<close>

fun truthy :: "json \<Rightarrow> bool" where
  "truthy JNull = False"
| "truthy (JBool b) = b"
| "truthy (JNum r) = (r \<noteq> 0)"
| "truthy (JStr s) = (s \<noteq> [])"
| "truthy (JList xs) = (xs \<noteq> [])"
| "truthy (JDict kvs) = (kvs \<noteq> [])"

text \<open>An HTTP response: its status code and its body, \<open>None\<close> when the body is not JSON.\<close>

record response =
  status_code :: int
  body :: "json option"

text \<open>
  The exceptions of the pipeline. The first five are the members of
  \<^verbatim>\<open>RETRYABLE_EXCEPTIONS\<close>; \<open>PoolTimeout\<close>, \<open>ReadError\<close> and \<open>WriteError\<close> are transport
  exceptions of httpx outside that tuple.
\<close>

datatype error =
    ConnectTimeout
  | ReadTimeout
  | WriteTimeout
  | ConnectError
  | RemoteProtocolError
  | PoolTimeout
  | ReadError
  | WriteError
  | HTTPStatusError response
  | JSONDecodeError
  | KeyError string
  | TypeError
  | AttributeError
  | ValueError
  | RuntimeError string

definition RETRYABLE_EXCEPTIONS :: "error set" where
  "RETRYABLE_EXCEPTIONS =
     {ConnectTimeout, ReadTimeout, WriteTimeout, ConnectError, RemoteProtocolError}"

definition RETRYABLE_STATUS_CODES :: "int set" where
  "RETRYABLE_STATUS_CODES = {429, 500, 502, 503, 504}"

text \<open>What one HTTP call does: it raises, or it returns a response.\<close>

datatype outcome = Raises error | Responds response

section \<open>Environment and state\<close>

text \<open>
  The two endpoints answer the \<open>k\<close>-th request sent to them (counted from 0), after a
  latency that advances the clock.
\<close>

record env =
  token_endpoint :: "nat \<Rightarrow> outcome"
  token_latency :: "nat \<Rightarrow> real"
  resource_endpoint :: "nat \<Rightarrow> outcome"
  resource_latency :: "nat \<Rightarrow> real"

text \<open>\<^verbatim>\<open>self.max_retries\<close> and \<^verbatim>\<open>self.retry_backoff\<close> of a client object.\<close>

record config =
  max_retries :: int
  retry_backoff :: real

text \<open>
  The mutable part: the token cache of the auth client (\<^verbatim>\<open>self._access_token\<close>, \<open>JNull\<close>
  for \<^verbatim>\<open>None\<close>, and \<^verbatim>\<open>self._token_expiry\<close>), the clock read by \<^verbatim>\<open>time.time()\<close>, the
  number of requests sent to each endpoint, and the delays passed to the sleep function, in
  order.
\<close>

record state =
  self_access_token :: json
  self_token_expiry :: real
  clock :: real
  token_calls :: nat
  resource_calls :: nat
  sleeps :: "real list"

text \<open>The state the constructor of \<^verbatim>\<open>AuthClient\<close> sets up.\<close>

definition init :: "real \<Rightarrow> state" where
  "init now = \<lparr>self_access_token = JNull, self_token_expiry = 0, clock = now,
                token_calls = 0, resource_calls = 0, sleeps = []\<rparr>"

text \<open>The result of one pass through the body of a retry loop.\<close>

datatype control =
    Continue "error option" state
  | Return json state
  | Raise error state

section \<open>Library calls\<close>

text \<open>\<^verbatim>\<open>range(n)\<close>.\<close>

definition py_range :: "int \<Rightarrow> int list" where
  "py_range n = map int [0..<nat n]"

text \<open>\<^verbatim>\<open>time.sleep\<close> refuses a negative delay; \<^verbatim>\<open>asyncio.sleep\<close> returns at once on a
  delay that is not positive.\<close>

definition time_sleep :: "real \<Rightarrow> state \<Rightarrow> error + state" where
  "time_sleep d s =
     (if d < 0 then Inl ValueError
      else Inr (s\<lparr>clock := clock s + d, sleeps := sleeps s @ [d]\<rparr>))"

definition asyncio_sleep :: "real \<Rightarrow> state \<Rightarrow> state" where
  "asyncio_sleep d s =
     s\<lparr>clock := clock s + (if d \<le> 0 then 0 else d), sleeps := sleeps s @ [d]\<rparr>"

text \<open>\<^verbatim>\<open>response.raise_for_status()\<close> of httpx: any status outside 200..299 raises.\<close>

definition raise_for_status :: "response \<Rightarrow> error + unit" where
  "raise_for_status r =
     (if 200 \<le> status_code r \<and> status_code r \<le> 299 then Inr ()
      else Inl (HTTPStatusError r))"

text \<open>\<^verbatim>\<open>response.json()\<close>.\<close>

definition response_json :: "response \<Rightarrow> error + json" where
  "response_json r = (case body r of None \<Rightarrow> Inl JSONDecodeError | Some j \<Rightarrow> Inr j)"

text \<open>\<^verbatim>\<open>data[key]\<close> and \<^verbatim>\<open>data.get(key, default)\<close>.\<close>

definition getitem :: "json \<Rightarrow> string \<Rightarrow> error + json" where
  "getitem data k =
     (case data of
        JDict kvs \<Rightarrow> (case map_of kvs k of None \<Rightarrow> Inl (KeyError k) | Some v \<Rightarrow> Inr v)
      | _ \<Rightarrow> Inl TypeError)"

definition get :: "json \<Rightarrow> string \<Rightarrow> json \<Rightarrow> error + json" where
  "get data k d =
     (case data of
        JDict kvs \<Rightarrow> (case map_of kvs k of None \<Rightarrow> Inr d | Some v \<Rightarrow> Inr v)
      | _ \<Rightarrow> Inl AttributeError)"

text \<open>\<^verbatim>\<open>time.time() + expires_in\<close>: a number is added (a bool counts as 0 or 1), anything else
  is a TypeError.\<close>

definition float_add :: "real \<Rightarrow> json \<Rightarrow> error + real" where
  "float_add t v =
     (case v of
        JNum r \<Rightarrow> Inr (t + r)
      | JBool b \<Rightarrow> Inr (t + (if b then 1 else 0))
      | _ \<Rightarrow> Inl TypeError)"

text \<open>The POST to the token endpoint and to the resource endpoint.\<close>

definition post_auth_url :: "env \<Rightarrow> state \<Rightarrow> outcome \<times> state" where
  "post_auth_url e s =
     (token_endpoint e (token_calls s),
      s\<lparr>clock := clock s + token_latency e (token_calls s),
        token_calls := Suc (token_calls s)\<rparr>)"

definition post_url :: "env \<Rightarrow> state \<Rightarrow> outcome \<times> state" where
  "post_url e s =
     (resource_endpoint e (resource_calls s),
      s\<lparr>clock := clock s + resource_latency e (resource_calls s),
        resource_calls := Suc (resource_calls s)\<rparr>)"

section \<open>AuthClient\<close>

record TokenResponse =
  access_token :: json
  token_type :: json
  expires_in :: json
  scope :: json

definition is_token_valid :: "state \<Rightarrow> bool" where
  "is_token_valid s =
     (if \<not> truthy (self_access_token s) then False
      else clock s < self_token_expiry s - 60)"

text \<open>The construction of the \<^verbatim>\<open>TokenResponse\<close> from the decoded body, argument by argument.\<close>

definition make_token_response :: "json \<Rightarrow> error + TokenResponse" where
  "make_token_response data =
     (case getitem data ''access_token'' of
        Inl err \<Rightarrow> Inl err
      | Inr tok \<Rightarrow>
          (case get data ''token_type'' (JStr ''Bearer'') of
             Inl err \<Rightarrow> Inl err
           | Inr tt \<Rightarrow>
               (case get data ''expires_in'' (JNum 900) of
                  Inl err \<Rightarrow> Inl err
                | Inr ei \<Rightarrow>
                    (case get data ''scope'' (JStr '''') of
                       Inl err \<Rightarrow> Inl err
                     | Inr sc \<Rightarrow>
                         Inr \<lparr>access_token = tok, token_type = tt,
                              expires_in = ei, scope = sc\<rparr>))))"

text \<open>The two assignments to the cache and the return, after the TokenResponse is built.\<close>

definition store_token :: "TokenResponse \<Rightarrow> state \<Rightarrow> control" where
  "store_token tr s =
     (let s1 = s\<lparr>self_access_token := access_token tr\<rparr> in
      case float_add (clock s1) (expires_in tr) of
        Inl err \<Rightarrow> Raise err s1
      | Inr x \<Rightarrow>
          (let s2 = s1\<lparr>self_token_expiry := x\<rparr> in Return (self_access_token s2) s2))"

text \<open>From \<^verbatim>\<open>response.raise_for_status()\<close> to the \<^verbatim>\<open>return\<close> of the \<^verbatim>\<open>try\<close> block.\<close>

definition accept_token_response :: "response \<Rightarrow> state \<Rightarrow> control" where
  "accept_token_response r s =
     (case raise_for_status r of
        Inl err \<Rightarrow> Raise err s
      | Inr _ \<Rightarrow>
          (case response_json r of
             Inl err \<Rightarrow> Raise err s
           | Inr data \<Rightarrow>
               (case make_token_response data of
                  Inl err \<Rightarrow> Raise err s
                | Inr tr \<Rightarrow> store_token tr s)))"

text \<open>The backoff of a retry: \<^verbatim>\<open>time.sleep(self.retry_backoff * (2 ** attempt))\<close>.\<close>

definition backoff_sleep :: "config \<Rightarrow> int \<Rightarrow> error option \<Rightarrow> state \<Rightarrow> control" where
  "backoff_sleep cfg attempt l s =
     (case time_sleep (retry_backoff cfg * 2 ^ nat attempt) s of
        Inl err \<Rightarrow> Raise err s
      | Inr s1 \<Rightarrow> Continue l s1)"

text \<open>The body of the \<^verbatim>\<open>try\<close> block of \<^verbatim>\<open>_refresh_token\<close>.\<close>

definition refresh_try :: "config \<Rightarrow> env \<Rightarrow> int \<Rightarrow> error option \<Rightarrow> state \<Rightarrow> control" where
  "refresh_try cfg e attempt last_exception s =
     (case post_auth_url e s of
        (Raises ex, s1) \<Rightarrow> Raise ex s1
      | (Responds r, s1) \<Rightarrow>
          if status_code r \<in> RETRYABLE_STATUS_CODES then
            (if attempt < max_retries cfg then backoff_sleep cfg attempt last_exception s1
             else accept_token_response r s1)
          else accept_token_response r s1)"

text \<open>The \<^verbatim>\<open>except RETRYABLE_EXCEPTIONS\<close> clause.\<close>

definition except_retryable :: "config \<Rightarrow> int \<Rightarrow> error \<Rightarrow> state \<Rightarrow> control" where
  "except_retryable cfg attempt ex s =
     (if attempt < max_retries cfg then backoff_sleep cfg attempt (Some ex) s
      else Raise ex s)"

definition refresh_attempt :: "config \<Rightarrow> env \<Rightarrow> int \<Rightarrow> error option \<Rightarrow> state \<Rightarrow> control" where
  "refresh_attempt cfg e attempt last_exception s =
     (case refresh_try cfg e attempt last_exception s of
        Raise ex s1 \<Rightarrow>
          if ex \<in> RETRYABLE_EXCEPTIONS then except_retryable cfg attempt ex s1
          else Raise ex s1
      | c \<Rightarrow> c)"

text \<open>The code after a retry loop that ran to its end.\<close>

definition after_loop :: "string \<Rightarrow> error option \<Rightarrow> state \<Rightarrow> (error + json) \<times> state" where
  "after_loop msg last_exception s =
     (case last_exception of
        Some ex \<Rightarrow> (Inl ex, s)
      | None \<Rightarrow> (Inl (RuntimeError msg), s))"

fun refresh_loop ::
  "config \<Rightarrow> env \<Rightarrow> int list \<Rightarrow> error option \<Rightarrow> state \<Rightarrow> (error + json) \<times> state" where
  "refresh_loop cfg e [] last_exception s =
     after_loop ''Token refresh failed unexpectedly'' last_exception s"
| "refresh_loop cfg e (attempt # rest) last_exception s =
     (case refresh_attempt cfg e attempt last_exception s of
        Continue l s1 \<Rightarrow> refresh_loop cfg e rest l s1
      | Return v s1 \<Rightarrow> (Inr v, s1)
      | Raise ex s1 \<Rightarrow> (Inl ex, s1))"

definition refresh_token :: "config \<Rightarrow> env \<Rightarrow> state \<Rightarrow> (error + json) \<times> state" where
  "refresh_token cfg e s = refresh_loop cfg e (py_range (max_retries cfg + 1)) None s"

definition get_token :: "config \<Rightarrow> env \<Rightarrow> state \<Rightarrow> (error + json) \<times> state" where
  "get_token cfg e s =
     (if is_token_valid s then (Inr (self_access_token s), s)
      else refresh_token cfg e s)"

definition invalidate_token :: "state \<Rightarrow> state" where
  "invalidate_token s = s\<lparr>self_access_token := JNull, self_token_expiry := 0\<rparr>"

section \<open>InsightsClient\<close>

text \<open>
  \<^verbatim>\<open>_post\<close> of the client with configuration \<open>cfg\<close>, whose \<^verbatim>\<open>self._auth\<close> has
  configuration \<open>acfg\<close>. The URL, the headers other than the token and the request body
  do not enter the control flow; \<^verbatim>\<open>_get_headers\<close> is the call of \<^verbatim>\<open>get_token\<close>.
\<close>

definition accept_response :: "response \<Rightarrow> state \<Rightarrow> control" where
  "accept_response r s =
     (case raise_for_status r of
        Inl err \<Rightarrow> Raise err s
      | Inr _ \<Rightarrow>
          (case response_json r of
             Inl err \<Rightarrow> Raise err s
           | Inr data \<Rightarrow> Return data s))"

definition post_try ::
  "config \<Rightarrow> config \<Rightarrow> env \<Rightarrow> int \<Rightarrow> error option \<Rightarrow> state \<Rightarrow> control" where
  "post_try cfg acfg e attempt last_exception s =
     (case get_token acfg e s of
        (Inl ex, s1) \<Rightarrow> Raise ex s1
      | (Inr tok, s1) \<Rightarrow>
          (case post_url e s1 of
             (Raises ex, s2) \<Rightarrow> Raise ex s2
           | (Responds r, s2) \<Rightarrow>
               if status_code r \<in> RETRYABLE_STATUS_CODES then
                 (if attempt < max_retries cfg then backoff_sleep cfg attempt last_exception s2
                  else accept_response r s2)
               else accept_response r s2))"

definition post_attempt ::
  "config \<Rightarrow> config \<Rightarrow> env \<Rightarrow> int \<Rightarrow> error option \<Rightarrow> state \<Rightarrow> control" where
  "post_attempt cfg acfg e attempt last_exception s =
     (case post_try cfg acfg e attempt last_exception s of
        Raise ex s1 \<Rightarrow>
          if ex \<in> RETRYABLE_EXCEPTIONS then except_retryable cfg attempt ex s1
          else Raise ex s1
      | c \<Rightarrow> c)"

fun post_loop ::
  "config \<Rightarrow> config \<Rightarrow> env \<Rightarrow> int list \<Rightarrow> error option \<Rightarrow> state \<Rightarrow> (error + json) \<times> state"
  where
  "post_loop cfg acfg e [] last_exception s =
     after_loop ''API request failed unexpectedly'' last_exception s"
| "post_loop cfg acfg e (attempt # rest) last_exception s =
     (case post_attempt cfg acfg e attempt last_exception s of
        Continue l s1 \<Rightarrow> post_loop cfg acfg e rest l s1
      | Return v s1 \<Rightarrow> (Inr v, s1)
      | Raise ex s1 \<Rightarrow> (Inl ex, s1))"

definition post :: "config \<Rightarrow> config \<Rightarrow> env \<Rightarrow> state \<Rightarrow> (error + json) \<times> state" where
  "post cfg acfg e s = post_loop cfg acfg e (py_range (max_retries cfg + 1)) None s"

section \<open>AsyncAuthClient and AsyncInsightsClient\<close>

text \<open>
  The cooperative variants, run as one task. \<^verbatim>\<open>AsyncAuthClient._refresh_token\<close> builds no
  \<^verbatim>\<open>TokenResponse\<close>: it stores \<^verbatim>\<open>data["access_token"]\<close> and then adds
  \<^verbatim>\<open>data.get("expires_in", 900)\<close> to the time.
\<close>

definition async_store_token :: "json \<Rightarrow> state \<Rightarrow> control" where
  "async_store_token data s =
     (case getitem data ''access_token'' of
        Inl err \<Rightarrow> Raise err s
      | Inr tok \<Rightarrow>
          (let s1 = s\<lparr>self_access_token := tok\<rparr> in
           case get data ''expires_in'' (JNum 900) of
             Inl err \<Rightarrow> Raise err s1
           | Inr ei \<Rightarrow>
               (case float_add (clock s1) ei of
                  Inl err \<Rightarrow> Raise err s1
                | Inr x \<Rightarrow>
                    (let s2 = s1\<lparr>self_token_expiry := x\<rparr>
                     in Return (self_access_token s2) s2))))"

definition async_accept_token_response :: "response \<Rightarrow> state \<Rightarrow> control" where
  "async_accept_token_response r s =
     (case raise_for_status r of
        Inl err \<Rightarrow> Raise err s
      | Inr _ \<Rightarrow>
          (case response_json r of
             Inl err \<Rightarrow> Raise err s
           | Inr data \<Rightarrow> async_store_token data s))"

definition async_backoff_sleep :: "config \<Rightarrow> int \<Rightarrow> error option \<Rightarrow> state \<Rightarrow> control" where
  "async_backoff_sleep cfg attempt l s =
     Continue l (asyncio_sleep (retry_backoff cfg * 2 ^ nat attempt) s)"

definition async_refresh_try ::
  "config \<Rightarrow> env \<Rightarrow> int \<Rightarrow> error option \<Rightarrow> state \<Rightarrow> control" where
  "async_refresh_try cfg e attempt last_exception s =
     (case post_auth_url e s of
        (Raises ex, s1) \<Rightarrow> Raise ex s1
      | (Responds r, s1) \<Rightarrow>
          if status_code r \<in> RETRYABLE_STATUS_CODES then
            (if attempt < max_retries cfg
             then async_backoff_sleep cfg attempt last_exception s1
             else async_accept_token_response r s1)
          else async_accept_token_response r s1)"

definition async_except_retryable :: "config \<Rightarrow> int \<Rightarrow> error \<Rightarrow> state \<Rightarrow> control" where
  "async_except_retryable cfg attempt ex s =
     (if attempt < max_retries cfg then async_backoff_sleep cfg attempt (Some ex) s
      else Raise ex s)"

definition async_refresh_attempt ::
  "config \<Rightarrow> env \<Rightarrow> int \<Rightarrow> error option \<Rightarrow> state \<Rightarrow> control" where
  "async_refresh_attempt cfg e attempt last_exception s =
     (case async_refresh_try cfg e attempt last_exception s of
        Raise ex s1 \<Rightarrow>
          if ex \<in> RETRYABLE_EXCEPTIONS then async_except_retryable cfg attempt ex s1
          else Raise ex s1
      | c \<Rightarrow> c)"

fun async_refresh_loop ::
  "config \<Rightarrow> env \<Rightarrow> int list \<Rightarrow> error option \<Rightarrow> state \<Rightarrow> (error + json) \<times> state" where
  "async_refresh_loop cfg e [] last_exception s =
     after_loop ''Token refresh failed unexpectedly'' last_exception s"
| "async_refresh_loop cfg e (attempt # rest) last_exception s =
     (case async_refresh_attempt cfg e attempt last_exception s of
        Continue l s1 \<Rightarrow> async_refresh_loop cfg e rest l s1
      | Return v s1 \<Rightarrow> (Inr v, s1)
      | Raise ex s1 \<Rightarrow> (Inl ex, s1))"

definition async_refresh_token :: "config \<Rightarrow> env \<Rightarrow> state \<Rightarrow> (error + json) \<times> state" where
  "async_refresh_token cfg e s =
     async_refresh_loop cfg e (py_range (max_retries cfg + 1)) None s"

definition async_get_token :: "config \<Rightarrow> env \<Rightarrow> state \<Rightarrow> (error + json) \<times> state" where
  "async_get_token cfg e s =
     (if is_token_valid s then (Inr (self_access_token s), s)
      else async_refresh_token cfg e s)"

definition async_post_try ::
  "config \<Rightarrow> config \<Rightarrow> env \<Rightarrow> int \<Rightarrow> error option \<Rightarrow> state \<Rightarrow> control" where
  "async_post_try cfg acfg e attempt last_exception s =
     (case async_get_token acfg e s of
        (Inl ex, s1) \<Rightarrow> Raise ex s1
      | (Inr tok, s1) \<Rightarrow>
          (case post_url e s1 of
             (Raises ex, s2) \<Rightarrow> Raise ex s2
           | (Responds r, s2) \<Rightarrow>
               if status_code r \<in> RETRYABLE_STATUS_CODES then
                 (if attempt < max_retries cfg
                  then async_backoff_sleep cfg attempt last_exception s2
                  else accept_response r s2)
               else accept_response r s2))"

definition async_post_attempt ::
  "config \<Rightarrow> config \<Rightarrow> env \<Rightarrow> int \<Rightarrow> error option \<Rightarrow> state \<Rightarrow> control" where
  "async_post_attempt cfg acfg e attempt last_exception s =
     (case async_post_try cfg acfg e attempt last_exception s of
        Raise ex s1 \<Rightarrow>
          if ex \<in> RETRYABLE_EXCEPTIONS then async_except_retryable cfg attempt ex s1
          else Raise ex s1
      | c \<Rightarrow> c)"

fun async_post_loop ::
  "config \<Rightarrow> config \<Rightarrow> env \<Rightarrow> int list \<Rightarrow> error option \<Rightarrow> state \<Rightarrow> (error + json) \<times> state"
  where
  "async_post_loop cfg acfg e [] last_exception s =
     after_loop ''Async API request failed unexpectedly'' last_exception s"
| "async_post_loop cfg acfg e (attempt # rest) last_exception s =
     (case async_post_attempt cfg acfg e attempt last_exception s of
        Continue l s1 \<Rightarrow> async_post_loop cfg acfg e rest l s1
      | Return v s1 \<Rightarrow> (Inr v, s1)
      | Raise ex s1 \<Rightarrow> (Inl ex, s1))"

definition async_post :: "config \<Rightarrow> config \<Rightarrow> env \<Rightarrow> state \<Rightarrow> (error + json) \<times> state" where
  "async_post cfg acfg e s =
     async_post_loop cfg acfg e (py_range (max_retries cfg + 1)) None s"

section \<open>Notions used in the statements\<close>

text \<open>An outcome that triggers a retry: a retryable exception or a retryable status.\<close>

definition retryable_outcome :: "outcome \<Rightarrow> bool" where
  "retryable_outcome out =
     (case out of
        Raises ex \<Rightarrow> ex \<in> RETRYABLE_EXCEPTIONS
      | Responds r \<Rightarrow> status_code r \<in> RETRYABLE_STATUS_CODES)"

text \<open>The error a retryable outcome ends in when no retry is left: the exception itself,
  or the status error of the response.\<close>

definition terminal_error :: "outcome \<Rightarrow> error" where
  "terminal_error out = (case out of Raises ex \<Rightarrow> ex | Responds r \<Rightarrow> HTTPStatusError r)"

text \<open>A transport failure that is retried: the endpoint cannot be reached.\<close>

definition unreachable :: "outcome \<Rightarrow> bool" where
  "unreachable out =
     (case out of Raises ex \<Rightarrow> ex \<in> RETRYABLE_EXCEPTIONS | Responds r \<Rightarrow> False)"

text \<open>A token response that is accepted: a 2xx status, a JSON object with an
  \<^verbatim>\<open>access_token\<close>, and an \<^verbatim>\<open>expires_in\<close> that is absent or a number.\<close>

definition token_granted :: "outcome \<Rightarrow> bool" where
  "token_granted out =
     (case out of
        Raises ex \<Rightarrow> False
      | Responds r \<Rightarrow>
          200 \<le> status_code r \<and> status_code r \<le> 299 \<and>
          (case body r of
             Some (JDict kvs) \<Rightarrow>
               map_of kvs ''access_token'' \<noteq> None \<and>
               (case map_of kvs ''expires_in'' of
                  None \<Rightarrow> True
                | Some (JNum x) \<Rightarrow> True
                | Some (JBool b) \<Rightarrow> True
                | Some _ \<Rightarrow> False)
           | _ \<Rightarrow> False))"

text \<open>The delays of the retries after the attempts \<open>a\<close> to \<open>k - 1\<close>.\<close>

definition backoffs :: "config \<Rightarrow> nat \<Rightarrow> nat \<Rightarrow> real list" where
  "backoffs cfg a k = map (\<lambda>attempt. retry_backoff cfg * 2 ^ attempt) [a..<k]"

text \<open>The state a pass through a loop body ends in.\<close>

fun state_of :: "control \<Rightarrow> state" where
  "state_of (Continue l s) = s"
| "state_of (Return v s) = s"
| "state_of (Raise ex s) = s"

section \<open>Scenarios\<close>

text \<open>Concrete responses, configurations and endpoints on which the theorems are run.\<close>

definition busy :: response where
  "busy = \<lparr>status_code = 503, body = None\<rparr>"

definition granted :: response where
  "granted = \<lparr>status_code = 200,
     body = Some (JDict [(''access_token'', JStr ''T1''), (''expires_in'', JNum 900)])\<rparr>"

definition policy :: "int \<Rightarrow> real \<Rightarrow> config" where
  "policy n b = \<lparr>max_retries = n, retry_backoff = b\<rparr>"

text \<open>Endpoints that give the same answer to every request, at once.\<close>

definition serve :: "outcome \<Rightarrow> outcome \<Rightarrow> env" where
  "serve t r = \<lparr>token_endpoint = (\<lambda>k. t), token_latency = (\<lambda>k. 0),
                 resource_endpoint = (\<lambda>k. r), resource_latency = (\<lambda>k. 0)\<rparr>"

text \<open>A manager holding an expired token, and one holding a token that is still valid.\<close>

definition stale :: state where
  "stale = (init 100)\<lparr>self_access_token := JStr ''old'', self_token_expiry := 0\<rparr>"

definition cached :: state where
  "cached = (init 100)\<lparr>self_access_token := JStr ''T0'', self_token_expiry := 1000\<rparr>"

definition unauthorized :: response where
  "unauthorized = \<lparr>status_code = 401, body = Some (JDict [(''error'', JStr ''invalid_token'')])\<rparr>"

text \<open>Token responses with only an \<^verbatim>\<open>access_token\<close>, and without one.\<close>

definition bare_grant :: response where
  "bare_grant = \<lparr>status_code = 200, body = Some (JDict [(''access_token'', JStr ''T1'')])\<rparr>"

definition no_token_grant :: response where
  "no_token_grant = \<lparr>status_code = 200, body = Some (JDict [(''token_type'', JStr ''Bearer'')])\<rparr>"

text \<open>An endpoint that times out \<open>n\<close> times and then gives one answer for good, and
  endpoints given request by request, answering at once.\<close>

definition bad_gateway :: response where
  "bad_gateway = \<lparr>status_code = 502, body = None\<rparr>"

definition timeouts_then :: "nat \<Rightarrow> outcome \<Rightarrow> nat \<Rightarrow> outcome" where
  "timeouts_then n out k = (if k < n then Raises ReadTimeout else out)"

definition answers :: "(nat \<Rightarrow> outcome) \<Rightarrow> (nat \<Rightarrow> outcome) \<Rightarrow> env" where
  "answers t r = \<lparr>token_endpoint = t, token_latency = (\<lambda>k. 0),
                   resource_endpoint = r, resource_latency = (\<lambda>k. 0)\<rparr>"

section \<open>Token validity\<close>

text \<open>
  C1. In every state, \<^verbatim>\<open>is_token_valid\<close> is true iff a token is cached and the current time
  is strictly less than the stored expiry minus 60 seconds. A token is cached when
  \<^verbatim>\<open>self._access_token\<close> is true in Python's sense, which is the test the property makes
  (\<^verbatim>\<open>None\<close> and the empty string are no token). In particular it is false when nothing is
  cached, and false at exactly the expiry minus 60 seconds and at every later instant.
\<close>

theorem is_token_valid_iff:
  "(is_token_valid s \<longleftrightarrow>
      truthy (self_access_token s) \<and> clock s < self_token_expiry s - 60)
   \<and> (self_access_token s = JNull \<longrightarrow> \<not> is_token_valid s)
   \<and> (self_token_expiry s - 60 \<le> clock s \<longrightarrow> \<not> is_token_valid s)"
  by (auto simp: is_token_valid_def)

theorem is_token_valid_iff_witness:
  "is_token_valid ((init 939)\<lparr>self_access_token := JStr ''T1'', self_token_expiry := 1000\<rparr>)
   \<and> \<not> is_token_valid (init 0)
   \<and> \<not> is_token_valid
         ((init 940)\<lparr>self_access_token := JStr ''T1'', self_token_expiry := 1000\<rparr>)"
  using
    is_token_valid_iff
      [of "(init 939)\<lparr>self_access_token := JStr ''T1'', self_token_expiry := 1000\<rparr>"]
    is_token_valid_iff [of "init 0"]
    is_token_valid_iff
      [of "(init 940)\<lparr>self_access_token := JStr ''T1'', self_token_expiry := 1000\<rparr>"]
  by (simp add: init_def)

section \<open>The retry loops when every outcome is retryable\<close>

lemma py_range_Suc: "0 \<le> n \<Longrightarrow> py_range (n + 1) = map int [0..<Suc (nat n)]"
  by (simp add: py_range_def nat_add_distrib)

lemma retryable_status_not_success:
  "status_code r \<in> RETRYABLE_STATUS_CODES \<Longrightarrow> raise_for_status r = Inl (HTTPStatusError r)"
  by (auto simp: RETRYABLE_STATUS_CODES_def raise_for_status_def)

lemma HTTPStatusError_not_retryable [simp]: "HTTPStatusError r \<notin> RETRYABLE_EXCEPTIONS"
  by (simp add: RETRYABLE_EXCEPTIONS_def)

lemma ValueError_not_retryable [simp]: "ValueError \<notin> RETRYABLE_EXCEPTIONS"
  by (simp add: RETRYABLE_EXCEPTIONS_def)

lemma backoff_sleep_ok:
  "0 \<le> retry_backoff cfg \<Longrightarrow>
   backoff_sleep cfg attempt l s =
     Continue l (s\<lparr>clock := clock s + retry_backoff cfg * 2 ^ nat attempt,
                   sleeps := sleeps s @ [retry_backoff cfg * 2 ^ nat attempt]\<rparr>)"
  by (simp add: backoff_sleep_def time_sleep_def not_less)

text \<open>One attempt on a retryable outcome with a retry left: sleep and continue.\<close>

lemma refresh_attempt_retry:
  assumes "retryable_outcome (token_endpoint e (token_calls s))"
    and "attempt < max_retries cfg" and "0 \<le> retry_backoff cfg"
  shows "\<exists>l. refresh_attempt cfg e attempt lx s =
     Continue l (s\<lparr>clock := clock s + token_latency e (token_calls s)
                              + retry_backoff cfg * 2 ^ nat attempt,
                   token_calls := Suc (token_calls s),
                   sleeps := sleeps s @ [retry_backoff cfg * 2 ^ nat attempt]\<rparr>)"
  using assms
  by (cases "token_endpoint e (token_calls s)")
     (auto simp: refresh_attempt_def refresh_try_def post_auth_url_def retryable_outcome_def
        except_retryable_def backoff_sleep_ok)

lemma refresh_attempt_exhausted:
  assumes "retryable_outcome (token_endpoint e (token_calls s))"
    and "\<not> attempt < max_retries cfg"
  shows "refresh_attempt cfg e attempt lx s =
     Raise (terminal_error (token_endpoint e (token_calls s)))
       (s\<lparr>clock := clock s + token_latency e (token_calls s),
          token_calls := Suc (token_calls s)\<rparr>)"
  using assms
  by (cases "token_endpoint e (token_calls s)")
     (auto simp: refresh_attempt_def refresh_try_def post_auth_url_def retryable_outcome_def
        except_retryable_def terminal_error_def accept_token_response_def
        retryable_status_not_success)

lemma refresh_loop_exhaust:
  assumes retr: "\<forall>k. retryable_outcome (token_endpoint e k)"
    and b: "0 \<le> retry_backoff cfg"
    and m: "max_retries cfg = int m"
  shows "a \<le> m \<Longrightarrow>
    fst (refresh_loop cfg e (map int [a..<Suc m]) lx s)
      = Inl (terminal_error (token_endpoint e (token_calls s + (m - a))))
    \<and> token_calls (snd (refresh_loop cfg e (map int [a..<Suc m]) lx s))
      = token_calls s + (Suc m - a)
    \<and> sleeps (snd (refresh_loop cfg e (map int [a..<Suc m]) lx s))
      = sleeps s @ backoffs cfg a m
    \<and> self_access_token (snd (refresh_loop cfg e (map int [a..<Suc m]) lx s))
      = self_access_token s
    \<and> self_token_expiry (snd (refresh_loop cfg e (map int [a..<Suc m]) lx s))
      = self_token_expiry s
    \<and> resource_calls (snd (refresh_loop cfg e (map int [a..<Suc m]) lx s))
      = resource_calls s"
proof (induction "m - a" arbitrary: a lx s)
  case 0
  then have am: "a = m" by simp
  have "\<not> int m < max_retries cfg" using m by simp
  then have "refresh_attempt cfg e (int m) lx s =
     Raise (terminal_error (token_endpoint e (token_calls s)))
       (s\<lparr>clock := clock s + token_latency e (token_calls s),
          token_calls := Suc (token_calls s)\<rparr>)"
    using retr by (intro refresh_attempt_exhausted) auto
  then show ?case by (simp add: am backoffs_def)
next
  case (Suc d)
  then have lt: "a < m" and d: "d = m - Suc a" and le: "Suc a \<le> m" by simp_all
  have upt: "[a..<Suc m] = a # [Suc a..<Suc m]" using lt by (simp add: upt_conv_Cons)
  have "int a < max_retries cfg" using m lt by simp
  from refresh_attempt_retry [OF retr [rule_format] this b]
  obtain l where att: "refresh_attempt cfg e (int a) lx s =
     Continue l (s\<lparr>clock := clock s + token_latency e (token_calls s)
                              + retry_backoff cfg * 2 ^ nat (int a),
                   token_calls := Suc (token_calls s),
                   sleeps := sleeps s @ [retry_backoff cfg * 2 ^ nat (int a)]\<rparr>)"
    by blast
  have bk: "backoffs cfg a m = (retry_backoff cfg * 2 ^ a) # backoffs cfg (Suc a) m"
    using lt by (simp add: backoffs_def upt_conv_Cons)
  have idx: "Suc (token_calls s + (m - Suc a)) = token_calls s + (m - a)"
    and cnt: "Suc (m - a) = Suc m - a"
    using lt by simp_all
  from Suc.hyps(1) [OF d le, of l]
  show ?case
    by (simp add: upt att bk idx cnt del: upt_Suc)
qed

lemma success_not_retryable:
  "200 \<le> status_code r \<Longrightarrow> status_code r \<le> 299 \<Longrightarrow> status_code r \<notin> RETRYABLE_STATUS_CODES"
  by (auto simp: RETRYABLE_STATUS_CODES_def)

lemma refresh_attempt_granted:
  assumes "token_granted (token_endpoint e (token_calls s))"
  shows "\<exists>v s1. refresh_attempt cfg e attempt lx s = Return v s1
           \<and> token_calls s1 = Suc (token_calls s)
           \<and> resource_calls s1 = resource_calls s \<and> sleeps s1 = sleeps s"
proof (cases "token_endpoint e (token_calls s)")
  case (Raises ex)
  with assms show ?thesis by (simp add: token_granted_def)
next
  case (Responds r)
  with assms have ok: "200 \<le> status_code r" "status_code r \<le> 299"
    by (simp_all add: token_granted_def)
  from assms Responds obtain kvs where bd: "body r = Some (JDict kvs)"
    by (auto simp: token_granted_def split: option.splits json.splits)
  from assms Responds bd obtain tok where tok: "map_of kvs ''access_token'' = Some tok"
    by (auto simp: token_granted_def)
  from assms Responds bd have
    "\<exists>x. float_add t (case map_of kvs ''expires_in'' of None \<Rightarrow> JNum 900 | Some v \<Rightarrow> v) = Inr x"
    for t
    by (auto simp: token_granted_def float_add_def split: option.splits json.splits)
  then obtain x where x:
    "float_add (clock s + token_latency e (token_calls s))
       (case map_of kvs ''expires_in'' of None \<Rightarrow> JNum 900 | Some v \<Rightarrow> v) = Inr x"
    by blast
  show ?thesis
    using Responds ok bd tok x
    by (simp add: refresh_attempt_def refresh_try_def post_auth_url_def success_not_retryable
        accept_token_response_def raise_for_status_def response_json_def
        make_token_response_def getitem_def get_def store_token_def Let_def
        split: option.splits)
qed

lemma get_token_granted:
  assumes "\<forall>k. token_granted (token_endpoint e k)" and "0 \<le> max_retries acfg"
  shows "\<exists>v s1. get_token acfg e s = (Inr v, s1)
           \<and> resource_calls s1 = resource_calls s \<and> sleeps s1 = sleeps s"
proof (cases "is_token_valid s")
  case True
  then show ?thesis by (simp add: get_token_def)
next
  case False
  from refresh_attempt_granted [OF assms(1) [rule_format]]
  obtain v s1 where "refresh_attempt acfg e 0 None s = Return v s1"
    "resource_calls s1 = resource_calls s" "sleeps s1 = sleeps s"
    by blast
  with False assms(2) show ?thesis
    by (simp add: get_token_def refresh_token_def py_range_Suc upt_conv_Cons del: upt_Suc)
qed

lemma post_attempt_retry:
  assumes "get_token acfg e s = (Inr tok, s1)"
    and "retryable_outcome (resource_endpoint e (resource_calls s1))"
    and "attempt < max_retries cfg" and "0 \<le> retry_backoff cfg"
  shows "\<exists>l. post_attempt cfg acfg e attempt lx s =
     Continue l (s1\<lparr>clock := clock s1 + resource_latency e (resource_calls s1)
                              + retry_backoff cfg * 2 ^ nat attempt,
                   resource_calls := Suc (resource_calls s1),
                   sleeps := sleeps s1 @ [retry_backoff cfg * 2 ^ nat attempt]\<rparr>)"
  using assms
  by (cases "resource_endpoint e (resource_calls s1)")
     (auto simp: post_attempt_def post_try_def post_url_def retryable_outcome_def
        except_retryable_def backoff_sleep_ok)

lemma post_attempt_exhausted:
  assumes "get_token acfg e s = (Inr tok, s1)"
    and "retryable_outcome (resource_endpoint e (resource_calls s1))"
    and "\<not> attempt < max_retries cfg"
  shows "post_attempt cfg acfg e attempt lx s =
     Raise (terminal_error (resource_endpoint e (resource_calls s1)))
       (s1\<lparr>clock := clock s1 + resource_latency e (resource_calls s1),
          resource_calls := Suc (resource_calls s1)\<rparr>)"
  using assms
  by (cases "resource_endpoint e (resource_calls s1)")
     (auto simp: post_attempt_def post_try_def post_url_def retryable_outcome_def
        except_retryable_def terminal_error_def accept_response_def
        retryable_status_not_success)

lemma post_loop_exhaust:
  assumes tok: "\<forall>k. token_granted (token_endpoint e k)" and am: "0 \<le> max_retries acfg"
    and retr: "\<forall>k. retryable_outcome (resource_endpoint e k)"
    and b: "0 \<le> retry_backoff cfg"
    and m: "max_retries cfg = int m"
  shows "a \<le> m \<Longrightarrow>
    fst (post_loop cfg acfg e (map int [a..<Suc m]) lx s)
      = Inl (terminal_error (resource_endpoint e (resource_calls s + (m - a))))
    \<and> resource_calls (snd (post_loop cfg acfg e (map int [a..<Suc m]) lx s))
      = resource_calls s + (Suc m - a)
    \<and> sleeps (snd (post_loop cfg acfg e (map int [a..<Suc m]) lx s))
      = sleeps s @ backoffs cfg a m"
proof (induction "m - a" arbitrary: a lx s)
  case 0
  then have eq: "a = m" by simp
  from get_token_granted [OF tok am, of s] obtain v s1 where
    g: "get_token acfg e s = (Inr v, s1)" "resource_calls s1 = resource_calls s"
       "sleeps s1 = sleeps s"
    by blast
  have "\<not> int m < max_retries cfg" using m by simp
  from post_attempt_exhausted [OF g(1) retr [rule_format] this]
  show ?case using g by (simp add: eq backoffs_def)
next
  case (Suc d)
  then have lt: "a < m" and d: "d = m - Suc a" and le: "Suc a \<le> m" by simp_all
  have upt: "[a..<Suc m] = a # [Suc a..<Suc m]" using lt by (simp add: upt_conv_Cons)
  from get_token_granted [OF tok am, of s] obtain v s1 where
    g: "get_token acfg e s = (Inr v, s1)" "resource_calls s1 = resource_calls s"
       "sleeps s1 = sleeps s"
    by blast
  have "int a < max_retries cfg" using m lt by simp
  from post_attempt_retry [OF g(1) retr [rule_format] this b]
  obtain l where att: "post_attempt cfg acfg e (int a) lx s =
     Continue l (s1\<lparr>clock := clock s1 + resource_latency e (resource_calls s1)
                              + retry_backoff cfg * 2 ^ nat (int a),
                   resource_calls := Suc (resource_calls s1),
                   sleeps := sleeps s1 @ [retry_backoff cfg * 2 ^ nat (int a)]\<rparr>)"
    by blast
  have bk: "backoffs cfg a m = (retry_backoff cfg * 2 ^ a) # backoffs cfg (Suc a) m"
    using lt by (simp add: backoffs_def upt_conv_Cons)
  have idx: "Suc (resource_calls s + (m - Suc a)) = resource_calls s + (m - a)"
    and cnt: "Suc (m - a) = Suc m - a"
    using lt by simp_all
  from Suc.hyps(1) [OF d le, of l]
  show ?case
    by (simp add: upt att bk idx cnt g del: upt_Suc)
qed

text \<open>
  C3. With \<open>max_retries = N\<close> (a count, so \<open>0 \<le> N\<close>, and a delay that is not negative),
  when every request to the token endpoint has a retryable outcome (429, 500, 502, 503,
  504 or a retryable transport exception), \<^verbatim>\<open>_refresh_token\<close> sends exactly \<open>N + 1\<close>
  requests and raises the error of the last one. The same holds for \<^verbatim>\<open>_post\<close> and the
  resource endpoint, the token endpoint granting a token to each of its requests so that
  every attempt reaches the resource endpoint.
\<close>

theorem retry_count_exhausted:
  assumes "0 \<le> max_retries cfg" and "0 \<le> retry_backoff cfg"
    and "\<forall>k. retryable_outcome (token_endpoint te k)"
    and "\<forall>k. retryable_outcome (resource_endpoint re k)"
    and "\<forall>k. token_granted (token_endpoint re k)" and "0 \<le> max_retries acfg"
  shows "fst (refresh_token cfg te s)
           = Inl (terminal_error (token_endpoint te (token_calls s + nat (max_retries cfg))))
       \<and> token_calls (snd (refresh_token cfg te s)) = token_calls s + (nat (max_retries cfg) + 1)
       \<and> fst (post cfg acfg re s)
           = Inl (terminal_error (resource_endpoint re (resource_calls s + nat (max_retries cfg))))
       \<and> resource_calls (snd (post cfg acfg re s))
           = resource_calls s + (nat (max_retries cfg) + 1)"
proof -
  have m: "max_retries cfg = int (nat (max_retries cfg))" using assms(1) by simp
  have r: "py_range (max_retries cfg + 1) = map int [0..<Suc (nat (max_retries cfg))]"
    using assms(1) by (rule py_range_Suc)
  from refresh_loop_exhaust [OF assms(3) assms(2) m, of 0 None s]
    post_loop_exhaust [OF assms(5) assms(6) assms(4) assms(2) m, of 0 None s]
  show ?thesis
    by (simp add: refresh_token_def post_def r del: upt_Suc)
qed

theorem retry_count_exhausted_witness:
  "fst (refresh_token (policy 2 1) (serve (Responds busy) (Responds busy)) (init 0))
     = Inl (HTTPStatusError busy)
   \<and> token_calls (snd (refresh_token (policy 2 1) (serve (Responds busy) (Responds busy)) (init 0)))
     = 3
   \<and> fst (post (policy 2 1) (policy 2 1) (serve (Responds granted) (Raises ReadTimeout)) (init 0))
     = Inl ReadTimeout
   \<and> resource_calls
       (snd (post (policy 2 1) (policy 2 1) (serve (Responds granted) (Raises ReadTimeout)) (init 0)))
     = 3"
  using retry_count_exhausted [of "policy 2 1" "serve (Responds busy) (Responds busy)"
      "serve (Responds granted) (Raises ReadTimeout)" "policy 2 1" "init 0"]
  by (simp add: policy_def serve_def busy_def granted_def init_def retryable_outcome_def
      token_granted_def terminal_error_def RETRYABLE_STATUS_CODES_def RETRYABLE_EXCEPTIONS_def)

section \<open>What an attempt and a loop change, whatever the endpoints answer\<close>

lemmas attempt_defs =
  refresh_attempt_def refresh_try_def post_auth_url_def except_retryable_def
  backoff_sleep_def time_sleep_def accept_token_response_def store_token_def Let_def

lemma refresh_attempt_token_calls:
  "token_calls (state_of (refresh_attempt cfg e attempt lx s)) = Suc (token_calls s)"
  by (auto simp: attempt_defs split: outcome.splits sum.splits control.splits)

lemma refresh_attempt_resource_calls:
  "resource_calls (state_of (refresh_attempt cfg e attempt lx s)) = resource_calls s"
  by (auto simp: attempt_defs split: outcome.splits sum.splits control.splits)

lemma refresh_attempt_Continue:
  "refresh_attempt cfg e attempt lx s = Continue l s1 \<Longrightarrow>
     attempt < max_retries cfg \<and> sleeps s1 = sleeps s @ [retry_backoff cfg * 2 ^ nat attempt]"
  by (auto simp: attempt_defs split: outcome.splits sum.splits control.splits if_splits)

lemma refresh_attempt_Return:
  "refresh_attempt cfg e attempt lx s = Return v s1 \<Longrightarrow>
     sleeps s1 = sleeps s \<and> self_access_token s1 = v"
  by (auto simp: attempt_defs split: outcome.splits sum.splits control.splits if_splits)

lemma refresh_attempt_Raise:
  "refresh_attempt cfg e attempt lx s = Raise ex s1 \<Longrightarrow> sleeps s1 = sleeps s"
  by (auto simp: attempt_defs split: outcome.splits sum.splits control.splits if_splits)

lemma refresh_loop_resource_calls:
  "resource_calls (snd (refresh_loop cfg e as lx s)) = resource_calls s"
proof (induction as arbitrary: lx s)
  case Nil
  then show ?case by (simp add: after_loop_def split: option.splits)
next
  case (Cons attempt rest)
  from refresh_attempt_resource_calls [of cfg e attempt lx s] Cons.IH
  show ?case by (cases "refresh_attempt cfg e attempt lx s") simp_all
qed

lemma refresh_loop_token_calls_le:
  "token_calls (snd (refresh_loop cfg e as lx s)) \<le> token_calls s + length as"
proof (induction as arbitrary: lx s)
  case Nil
  then show ?case by (simp add: after_loop_def split: option.splits)
next
  case (Cons attempt rest)
  show ?case
  proof (cases "refresh_attempt cfg e attempt lx s")
    case (Continue l s1)
    with refresh_attempt_token_calls [of cfg e attempt lx s] Cons.IH [of l s1]
    show ?thesis by simp
  next
    case (Return v s1)
    with refresh_attempt_token_calls [of cfg e attempt lx s] show ?thesis by simp
  next
    case (Raise ex s1)
    with refresh_attempt_token_calls [of cfg e attempt lx s] show ?thesis by simp
  qed
qed

lemma refresh_loop_Inr:
  "refresh_loop cfg e as lx s = (Inr v, s1) \<Longrightarrow> self_access_token s1 = v"
proof (induction as arbitrary: lx s)
  case Nil
  then show ?case by (simp add: after_loop_def split: option.splits)
next
  case (Cons attempt rest)
  then show ?case
    by (cases "refresh_attempt cfg e attempt lx s") (auto dest: refresh_attempt_Return)
qed

text \<open>Whatever the endpoint answers: the loop stops after some attempt \<open>k\<close>, having slept
  after each earlier attempt and not after \<open>k\<close>.\<close>

lemma refresh_loop_sleeps:
  assumes m: "max_retries cfg = int m"
  shows "a \<le> m \<Longrightarrow>
    \<exists>k. a \<le> k \<and> k \<le> m
      \<and> token_calls (snd (refresh_loop cfg e (map int [a..<Suc m]) lx s))
          = token_calls s + (Suc k - a)
      \<and> sleeps (snd (refresh_loop cfg e (map int [a..<Suc m]) lx s))
          = sleeps s @ backoffs cfg a k"
proof (induction "m - a" arbitrary: a lx s)
  case 0
  then have eq: "a = m" by simp
  have nc: "refresh_attempt cfg e (int m) lx s \<noteq> Continue l s1" for l s1
    using refresh_attempt_Continue [of cfg e "int m" lx s l s1] m by auto
  have "token_calls (snd (refresh_loop cfg e [int m] lx s)) = Suc (token_calls s)
      \<and> sleeps (snd (refresh_loop cfg e [int m] lx s)) = sleeps s"
    using refresh_attempt_token_calls [of cfg e "int m" lx s] nc
    by (cases "refresh_attempt cfg e (int m) lx s")
       (auto dest: refresh_attempt_Return refresh_attempt_Raise)
  then show ?case
    by (intro exI [of _ m]) (simp add: eq backoffs_def)
next
  case (Suc d)
  then have lt: "a < m" and d: "d = m - Suc a" and le: "Suc a \<le> m" by simp_all
  have upt: "[a..<Suc m] = a # [Suc a..<Suc m]" using lt by (simp add: upt_conv_Cons)
  show ?case
  proof (cases "refresh_attempt cfg e (int a) lx s")
    case (Continue l s1)
    from refresh_attempt_Continue [OF Continue]
    have sl: "sleeps s1 = sleeps s @ [retry_backoff cfg * 2 ^ a]" by simp
    from refresh_attempt_token_calls [of cfg e "int a" lx s] Continue
    have tc: "token_calls s1 = Suc (token_calls s)" by simp
    from Suc.hyps(1) [OF d le, of l s1] obtain k where k: "Suc a \<le> k" "k \<le> m"
      "token_calls (snd (refresh_loop cfg e (map int [Suc a..<Suc m]) l s1))
          = token_calls s1 + (Suc k - Suc a)"
      "sleeps (snd (refresh_loop cfg e (map int [Suc a..<Suc m]) l s1))
          = sleeps s1 @ backoffs cfg (Suc a) k"
      by blast
    have bk: "backoffs cfg a k = (retry_backoff cfg * 2 ^ a) # backoffs cfg (Suc a) k"
      using k(1) by (simp add: backoffs_def upt_conv_Cons)
    show ?thesis
      using k Continue
      by (intro exI [of _ k]) (simp add: upt sl tc bk del: upt_Suc)
  next
    case (Return v s1)
    with refresh_attempt_token_calls [of cfg e "int a" lx s] refresh_attempt_Return [OF Return]
    show ?thesis
      using lt by (intro exI [of _ a]) (simp add: upt backoffs_def del: upt_Suc)
  next
    case (Raise ex s1)
    with refresh_attempt_token_calls [of cfg e "int a" lx s] refresh_attempt_Raise [OF Raise]
    show ?thesis
      using lt by (intro exI [of _ a]) (simp add: upt backoffs_def del: upt_Suc)
  qed
qed

lemma get_token_resource_calls:
  "resource_calls (snd (get_token acfg e s)) = resource_calls s"
  by (simp add: get_token_def refresh_token_def refresh_loop_resource_calls)

lemma get_token_token_calls_le:
  "token_calls (snd (get_token acfg e s)) \<le> token_calls s + nat (max_retries acfg + 1)"
  using refresh_loop_token_calls_le [of acfg e "py_range (max_retries acfg + 1)" None s]
  by (simp add: get_token_def refresh_token_def py_range_def)

lemma get_token_Inr:
  "get_token acfg e s = (Inr v, s1) \<Longrightarrow> self_access_token s1 = v"
  by (auto simp: get_token_def refresh_token_def dest: refresh_loop_Inr split: if_splits)

lemmas post_defs =
  post_attempt_def post_try_def post_url_def except_retryable_def
  backoff_sleep_def time_sleep_def accept_response_def

lemma post_attempt_token_calls:
  "token_calls (state_of (post_attempt cfg acfg e attempt lx s))
     = token_calls (snd (get_token acfg e s))"
  by (auto simp: post_defs split: prod.splits outcome.splits sum.splits control.splits)

lemma post_attempt_Continue:
  "get_token acfg e s = (Inr tok, s1) \<Longrightarrow>
   post_attempt cfg acfg e attempt lx s = Continue l s2 \<Longrightarrow>
     attempt < max_retries cfg \<and> resource_calls s2 = Suc (resource_calls s1)
     \<and> sleeps s2 = sleeps s1 @ [retry_backoff cfg * 2 ^ nat attempt]"
  by (auto simp: post_defs split: outcome.splits sum.splits control.splits if_splits)

lemma post_attempt_Return:
  "get_token acfg e s = (Inr tok, s1) \<Longrightarrow>
   post_attempt cfg acfg e attempt lx s = Return v s2 \<Longrightarrow>
     resource_calls s2 = Suc (resource_calls s1) \<and> sleeps s2 = sleeps s1"
  by (auto simp: post_defs split: outcome.splits sum.splits control.splits if_splits)

lemma post_attempt_Raise:
  "get_token acfg e s = (Inr tok, s1) \<Longrightarrow>
   post_attempt cfg acfg e attempt lx s = Raise ex s2 \<Longrightarrow>
     resource_calls s2 = Suc (resource_calls s1) \<and> sleeps s2 = sleeps s1"
  by (auto simp: post_defs split: outcome.splits sum.splits control.splits if_splits)

lemma post_loop_token_calls_le:
  "token_calls (snd (post_loop cfg acfg e as lx s))
     \<le> token_calls s + length as * nat (max_retries acfg + 1)"
proof (induction as arbitrary: lx s)
  case Nil
  then show ?case by (simp add: after_loop_def split: option.splits)
next
  case (Cons attempt rest)
  have st: "token_calls (state_of (post_attempt cfg acfg e attempt lx s))
      \<le> token_calls s + nat (max_retries acfg + 1)"
    using get_token_token_calls_le [of acfg e s] by (simp add: post_attempt_token_calls)
  show ?case
  proof (cases "post_attempt cfg acfg e attempt lx s")
    case (Continue l s1)
    with st Cons.IH [of l s1] show ?thesis by simp
  next
    case (Return v s1)
    with st show ?thesis by simp
  next
    case (Raise ex s1)
    with st show ?thesis by simp
  qed
qed

text \<open>The executor's loop under a token endpoint that grants a token: it stops after some
  attempt \<open>k\<close>, having slept after each earlier attempt and not after \<open>k\<close>.\<close>

lemma post_loop_sleeps:
  assumes tok: "\<forall>k. token_granted (token_endpoint e k)" and am: "0 \<le> max_retries acfg"
    and m: "max_retries cfg = int m"
  shows "a \<le> m \<Longrightarrow>
    \<exists>k. a \<le> k \<and> k \<le> m
      \<and> resource_calls (snd (post_loop cfg acfg e (map int [a..<Suc m]) lx s))
          = resource_calls s + (Suc k - a)
      \<and> sleeps (snd (post_loop cfg acfg e (map int [a..<Suc m]) lx s))
          = sleeps s @ backoffs cfg a k"
proof (induction "m - a" arbitrary: a lx s)
  case 0
  then have eq: "a = m" by simp
  from get_token_granted [OF tok am, of s] obtain v s1 where
    g: "get_token acfg e s = (Inr v, s1)" "resource_calls s1 = resource_calls s"
       "sleeps s1 = sleeps s"
    by blast
  have nc: "post_attempt cfg acfg e (int m) lx s \<noteq> Continue l s2" for l s2
    using post_attempt_Continue [OF g(1), of cfg "int m" lx l s2] m by auto
  have "resource_calls (snd (post_loop cfg acfg e [int m] lx s)) = Suc (resource_calls s)
      \<and> sleeps (snd (post_loop cfg acfg e [int m] lx s)) = sleeps s"
    using nc g(2,3)
    by (cases "post_attempt cfg acfg e (int m) lx s")
       (auto dest: post_attempt_Return [OF g(1)] post_attempt_Raise [OF g(1)])
  then show ?case
    by (intro exI [of _ m]) (simp add: eq backoffs_def)
next
  case (Suc d)
  then have lt: "a < m" and d: "d = m - Suc a" and le: "Suc a \<le> m" by simp_all
  have upt: "[a..<Suc m] = a # [Suc a..<Suc m]" using lt by (simp add: upt_conv_Cons)
  from get_token_granted [OF tok am, of s] obtain v s1 where
    g: "get_token acfg e s = (Inr v, s1)" "resource_calls s1 = resource_calls s"
       "sleeps s1 = sleeps s"
    by blast
  show ?case
  proof (cases "post_attempt cfg acfg e (int a) lx s")
    case (Continue l s2)
    from post_attempt_Continue [OF g(1) Continue] g
    have sl: "sleeps s2 = sleeps s @ [retry_backoff cfg * 2 ^ a]"
      and rc: "resource_calls s2 = Suc (resource_calls s)" by simp_all
    from Suc.hyps(1) [OF d le, of l s2] obtain k where k: "Suc a \<le> k" "k \<le> m"
      "resource_calls (snd (post_loop cfg acfg e (map int [Suc a..<Suc m]) l s2))
          = resource_calls s2 + (Suc k - Suc a)"
      "sleeps (snd (post_loop cfg acfg e (map int [Suc a..<Suc m]) l s2))
          = sleeps s2 @ backoffs cfg (Suc a) k"
      by blast
    have bk: "backoffs cfg a k = (retry_backoff cfg * 2 ^ a) # backoffs cfg (Suc a) k"
      using k(1) by (simp add: backoffs_def upt_conv_Cons)
    show ?thesis
      using k Continue
      by (intro exI [of _ k]) (simp add: upt sl rc bk del: upt_Suc)
  next
    case (Return v2 s2)
    with post_attempt_Return [OF g(1) Return] g
    show ?thesis
      using lt by (intro exI [of _ a]) (simp add: upt backoffs_def del: upt_Suc)
  next
    case (Raise ex s2)
    with post_attempt_Raise [OF g(1) Raise] g
    show ?thesis
      using lt by (intro exI [of _ a]) (simp add: upt backoffs_def del: upt_Suc)
  qed
qed

section \<open>Failure of a refresh\<close>

text \<open>
  A refresh that exhausts its retries does not clear the cache: with one retry and a token
  endpoint that answers 503, the refresh of a manager holding the expired token \<open>old\<close>
  sends two requests, raises the status error, and the manager still holds \<open>old\<close>.
\<close>

theorem refresh_failure_not_cleared:
  "fst (refresh_token (policy 1 1) (serve (Responds busy) (Responds busy)) stale)
     = Inl (HTTPStatusError busy)
   \<and> token_calls (snd (refresh_token (policy 1 1) (serve (Responds busy) (Responds busy)) stale))
     = 2
   \<and> self_access_token
       (snd (refresh_token (policy 1 1) (serve (Responds busy) (Responds busy)) stale))
     = JStr ''old''
   \<and> self_access_token
       (snd (refresh_token (policy 1 1) (serve (Responds busy) (Responds busy)) stale))
     \<noteq> JNull"
  by (simp add: refresh_token_def py_range_def upt_conv_Cons policy_def serve_def busy_def
      stale_def init_def attempt_defs RETRYABLE_STATUS_CODES_def raise_for_status_def
      del: upt_Suc)

text \<open>
  C4, as the code has it. A \<^verbatim>\<open>_refresh_token\<close> that fails after exhausting all its retries
  raises the error of its last attempt and leaves the cached token and its expiry exactly
  as they were before the refresh began.
\<close>

theorem refresh_failure_keeps_cache:
  assumes "0 \<le> max_retries cfg" and "0 \<le> retry_backoff cfg"
    and "\<forall>k. retryable_outcome (token_endpoint e k)"
  shows "fst (refresh_token cfg e s)
           = Inl (terminal_error (token_endpoint e (token_calls s + nat (max_retries cfg))))
       \<and> self_access_token (snd (refresh_token cfg e s)) = self_access_token s
       \<and> self_token_expiry (snd (refresh_token cfg e s)) = self_token_expiry s"
proof -
  have m: "max_retries cfg = int (nat (max_retries cfg))" using assms(1) by simp
  have r: "py_range (max_retries cfg + 1) = map int [0..<Suc (nat (max_retries cfg))]"
    using assms(1) by (rule py_range_Suc)
  from refresh_loop_exhaust [OF assms(3) assms(2) m, of 0 None s]
  show ?thesis
    by (simp add: refresh_token_def r del: upt_Suc)
qed

theorem refresh_failure_keeps_cache_witness:
  "fst (refresh_token (policy 3 1) (serve (Raises ConnectError) (Responds busy)) stale)
     = Inl ConnectError
   \<and> self_access_token
       (snd (refresh_token (policy 3 1) (serve (Raises ConnectError) (Responds busy)) stale))
     = JStr ''old''
   \<and> self_token_expiry
       (snd (refresh_token (policy 3 1) (serve (Raises ConnectError) (Responds busy)) stale))
     = 0"
  using refresh_failure_keeps_cache
    [of "policy 3 1" "serve (Raises ConnectError) (Responds busy)" stale]
  by (simp add: policy_def serve_def stale_def init_def retryable_outcome_def
      terminal_error_def RETRYABLE_EXCEPTIONS_def)

section \<open>The last attempt and the first attempt\<close>

text \<open>A run that reaches its last attempt: every earlier request had a retryable outcome, and
  the last one is answered with a retryable status.\<close>

lemma refresh_loop_last_status:
  assumes b: "0 \<le> retry_backoff cfg" and m: "max_retries cfg = int m"
  shows "a \<le> m \<Longrightarrow>
    \<forall>i < m - a. retryable_outcome (token_endpoint e (token_calls s + i)) \<Longrightarrow>
    token_endpoint e (token_calls s + (m - a)) = Responds r \<Longrightarrow>
    status_code r \<in> RETRYABLE_STATUS_CODES \<Longrightarrow>
    fst (refresh_loop cfg e (map int [a..<Suc m]) lx s) = Inl (HTTPStatusError r)
    \<and> token_calls (snd (refresh_loop cfg e (map int [a..<Suc m]) lx s))
      = token_calls s + (Suc m - a)
    \<and> sleeps (snd (refresh_loop cfg e (map int [a..<Suc m]) lx s))
      = sleeps s @ backoffs cfg a m"
proof (induction "m - a" arbitrary: a lx s)
  case 0
  then have eq: "a = m" by simp
  from "0.prems"(3,4) have out: "token_endpoint e (token_calls s) = Responds r"
    and "retryable_outcome (token_endpoint e (token_calls s))"
    by (simp_all add: eq retryable_outcome_def)
  moreover have "\<not> int m < max_retries cfg" using m by simp
  ultimately have "refresh_attempt cfg e (int m) lx s =
     Raise (terminal_error (token_endpoint e (token_calls s)))
       (s\<lparr>clock := clock s + token_latency e (token_calls s),
          token_calls := Suc (token_calls s)\<rparr>)"
    by (intro refresh_attempt_exhausted)
  then show ?case by (simp add: eq out terminal_error_def backoffs_def)
next
  case (Suc d)
  then have lt: "a < m" and d: "d = m - Suc a" and le: "Suc a \<le> m" by simp_all
  have upt: "[a..<Suc m] = a # [Suc a..<Suc m]" using lt by (simp add: upt_conv_Cons)
  have r0: "retryable_outcome (token_endpoint e (token_calls s))"
    using Suc.prems(2) [rule_format, of 0] lt by simp
  have "int a < max_retries cfg" using m lt by simp
  from refresh_attempt_retry [OF r0 this b]
  obtain l where att: "refresh_attempt cfg e (int a) lx s =
     Continue l (s\<lparr>clock := clock s + token_latency e (token_calls s)
                              + retry_backoff cfg * 2 ^ nat (int a),
                   token_calls := Suc (token_calls s),
                   sleeps := sleeps s @ [retry_backoff cfg * 2 ^ nat (int a)]\<rparr>)"
    by blast
  define s1 where "s1 = s\<lparr>clock := clock s + token_latency e (token_calls s)
                              + retry_backoff cfg * 2 ^ nat (int a),
                   token_calls := Suc (token_calls s),
                   sleeps := sleeps s @ [retry_backoff cfg * 2 ^ nat (int a)]\<rparr>"
  have s1f: "token_calls s1 = Suc (token_calls s)"
    "sleeps s1 = sleeps s @ [retry_backoff cfg * 2 ^ a]"
    by (simp_all add: s1_def)
  have w: "\<forall>i < m - Suc a. retryable_outcome (token_endpoint e (token_calls s1 + i))"
  proof (intro allI impI)
    fix i assume "i < m - Suc a"
    then have "Suc i < m - a" by simp
    from Suc.prems(2) [rule_format, OF this] show
      "retryable_outcome (token_endpoint e (token_calls s1 + i))"
      by (simp add: s1f)
  qed
  have "token_calls s1 + (m - Suc a) = token_calls s + (m - a)"
    using lt by (simp add: s1f)
  then have fin: "token_endpoint e (token_calls s1 + (m - Suc a)) = Responds r"
    using Suc.prems(3) by simp
  have bk: "backoffs cfg a m = (retry_backoff cfg * 2 ^ a) # backoffs cfg (Suc a) m"
    using lt by (simp add: backoffs_def upt_conv_Cons)
  have cnt: "Suc (token_calls s) + (Suc m - Suc a) = token_calls s + (Suc m - a)"
    using lt by simp
  from Suc.hyps(1) [OF d le w fin Suc.prems(4), of l] att
  show ?case
    unfolding upt s1_def [symmetric]
    by (simp add: s1f bk del: upt_Suc) (use lt in linarith)
qed

lemma post_loop_last_status:
  assumes tok: "\<forall>k. token_granted (token_endpoint e k)" and am: "0 \<le> max_retries acfg"
    and b: "0 \<le> retry_backoff cfg" and m: "max_retries cfg = int m"
  shows "a \<le> m \<Longrightarrow>
    \<forall>i < m - a. retryable_outcome (resource_endpoint e (resource_calls s + i)) \<Longrightarrow>
    resource_endpoint e (resource_calls s + (m - a)) = Responds r \<Longrightarrow>
    status_code r \<in> RETRYABLE_STATUS_CODES \<Longrightarrow>
    fst (post_loop cfg acfg e (map int [a..<Suc m]) lx s) = Inl (HTTPStatusError r)
    \<and> resource_calls (snd (post_loop cfg acfg e (map int [a..<Suc m]) lx s))
      = resource_calls s + (Suc m - a)
    \<and> sleeps (snd (post_loop cfg acfg e (map int [a..<Suc m]) lx s))
      = sleeps s @ backoffs cfg a m"
proof (induction "m - a" arbitrary: a lx s)
  case 0
  then have eq: "a = m" by simp
  from get_token_granted [OF tok am, of s] obtain v s1 where
    g: "get_token acfg e s = (Inr v, s1)" "resource_calls s1 = resource_calls s"
       "sleeps s1 = sleeps s"
    by blast
  from "0.prems"(3,4) have out: "resource_endpoint e (resource_calls s1) = Responds r"
    and ro: "retryable_outcome (resource_endpoint e (resource_calls s1))"
    by (simp_all add: eq g retryable_outcome_def)
  have "\<not> int m < max_retries cfg" using m by simp
  from post_attempt_exhausted [OF g(1) ro this, of lx]
  have "post_attempt cfg acfg e (int m) lx s =
     Raise (HTTPStatusError r)
       (s1\<lparr>clock := clock s1 + resource_latency e (resource_calls s1),
          resource_calls := Suc (resource_calls s1)\<rparr>)"
    by (simp only: out terminal_error_def outcome.case)
  then show ?case using g(2,3) by (simp add: eq backoffs_def)
next
  case (Suc d)
  then have lt: "a < m" and d: "d = m - Suc a" and le: "Suc a \<le> m" by simp_all
  have upt: "[a..<Suc m] = a # [Suc a..<Suc m]" using lt by (simp add: upt_conv_Cons)
  from get_token_granted [OF tok am, of s] obtain v s1 where
    g: "get_token acfg e s = (Inr v, s1)" "resource_calls s1 = resource_calls s"
       "sleeps s1 = sleeps s"
    by blast
  have r0: "retryable_outcome (resource_endpoint e (resource_calls s1))"
    using Suc.prems(2) [rule_format, of 0] lt by (simp add: g)
  have "int a < max_retries cfg" using m lt by simp
  from post_attempt_retry [OF g(1) r0 this b]
  obtain l where att: "post_attempt cfg acfg e (int a) lx s =
     Continue l (s1\<lparr>clock := clock s1 + resource_latency e (resource_calls s1)
                              + retry_backoff cfg * 2 ^ nat (int a),
                   resource_calls := Suc (resource_calls s1),
                   sleeps := sleeps s1 @ [retry_backoff cfg * 2 ^ nat (int a)]\<rparr>)"
    by blast
  define s2 where "s2 = s1\<lparr>clock := clock s1 + resource_latency e (resource_calls s1)
                              + retry_backoff cfg * 2 ^ nat (int a),
                   resource_calls := Suc (resource_calls s1),
                   sleeps := sleeps s1 @ [retry_backoff cfg * 2 ^ nat (int a)]\<rparr>"
  have s2f: "resource_calls s2 = Suc (resource_calls s)"
    "sleeps s2 = sleeps s @ [retry_backoff cfg * 2 ^ a]"
    by (simp_all add: s2_def g)
  have w: "\<forall>i < m - Suc a. retryable_outcome (resource_endpoint e (resource_calls s2 + i))"
  proof (intro allI impI)
    fix i assume "i < m - Suc a"
    then have "Suc i < m - a" by simp
    from Suc.prems(2) [rule_format, OF this] show
      "retryable_outcome (resource_endpoint e (resource_calls s2 + i))"
      by (simp add: s2f)
  qed
  have "resource_calls s2 + (m - Suc a) = resource_calls s + (m - a)"
    using lt by (simp add: s2f)
  then have fin: "resource_endpoint e (resource_calls s2 + (m - Suc a)) = Responds r"
    using Suc.prems(3) by simp
  have bk: "backoffs cfg a m = (retry_backoff cfg * 2 ^ a) # backoffs cfg (Suc a) m"
    using lt by (simp add: backoffs_def upt_conv_Cons)
  from Suc.hyps(1) [OF d le w fin Suc.prems(4), of l] att
  show ?case
    unfolding upt s2_def [symmetric]
    by (simp add: s2f bk del: upt_Suc) (use lt in linarith)
qed

text \<open>
  C5. In a run of \<^verbatim>\<open>_refresh_token\<close> that reaches its last attempt, the one numbered
  \<open>max_retries\<close> (every earlier request had a retryable outcome), and receives there a
  response with a retryable status (429, 500, 502, 503, 504), the call raises the HTTP
  status error that \<^verbatim>\<open>raise_for_status\<close> makes of that last response, after exactly
  \<open>max_retries + 1\<close> requests and the \<open>max_retries\<close> delays of the earlier attempts: no
  retry and no sleep follow the last attempt. The same holds for a run of \<^verbatim>\<open>_post\<close> and
  the resource endpoint, the token endpoint granting a token to each of its requests.
\<close>

theorem exhausted_status_raises:
  assumes "0 \<le> max_retries cfg" and "0 \<le> retry_backoff cfg"
    and "\<forall>i < nat (max_retries cfg). retryable_outcome (token_endpoint te (token_calls s + i))"
    and "token_endpoint te (token_calls s + nat (max_retries cfg)) = Responds r"
    and "status_code r \<in> RETRYABLE_STATUS_CODES"
    and "\<forall>k. token_granted (token_endpoint re k)" and "0 \<le> max_retries acfg"
    and "\<forall>i < nat (max_retries cfg).
           retryable_outcome (resource_endpoint re (resource_calls s + i))"
    and "resource_endpoint re (resource_calls s + nat (max_retries cfg)) = Responds r'"
    and "status_code r' \<in> RETRYABLE_STATUS_CODES"
  shows "fst (refresh_token cfg te s) = Inl (HTTPStatusError r)
       \<and> token_calls (snd (refresh_token cfg te s)) = token_calls s + (nat (max_retries cfg) + 1)
       \<and> sleeps (snd (refresh_token cfg te s))
           = sleeps s @ backoffs cfg 0 (nat (max_retries cfg))
       \<and> fst (post cfg acfg re s) = Inl (HTTPStatusError r')
       \<and> resource_calls (snd (post cfg acfg re s))
           = resource_calls s + (nat (max_retries cfg) + 1)
       \<and> sleeps (snd (post cfg acfg re s))
           = sleeps s @ backoffs cfg 0 (nat (max_retries cfg))"
proof -
  have m: "max_retries cfg = int (nat (max_retries cfg))" using assms(1) by simp
  have rg: "py_range (max_retries cfg + 1) = map int [0..<Suc (nat (max_retries cfg))]"
    using assms(1) by (rule py_range_Suc)
  from refresh_loop_last_status [OF assms(2) m, of 0 te s r None] assms(3,4,5)
    post_loop_last_status [OF assms(6,7) assms(2) m, of 0 s r' None] assms(8,9,10)
  show ?thesis
    by (simp add: refresh_token_def post_def rg del: upt_Suc)
qed

theorem exhausted_status_raises_witness:
  "fst (refresh_token (policy 3 1)
          (answers (timeouts_then 3 (Responds bad_gateway)) (\<lambda>k. Responds busy)) (init 0))
     = Inl (HTTPStatusError bad_gateway)
   \<and> token_calls (snd (refresh_token (policy 3 1)
          (answers (timeouts_then 3 (Responds bad_gateway)) (\<lambda>k. Responds busy)) (init 0)))
     = 4
   \<and> sleeps (snd (refresh_token (policy 3 1)
          (answers (timeouts_then 3 (Responds bad_gateway)) (\<lambda>k. Responds busy)) (init 0)))
     = [1, 2, 4]
   \<and> fst (post (policy 3 1) (policy 3 1)
          (answers (\<lambda>k. Responds granted) (timeouts_then 3 (Responds bad_gateway))) (init 0))
     = Inl (HTTPStatusError bad_gateway)
   \<and> resource_calls (snd (post (policy 3 1) (policy 3 1)
          (answers (\<lambda>k. Responds granted) (timeouts_then 3 (Responds bad_gateway))) (init 0)))
     = 4
   \<and> sleeps (snd (post (policy 3 1) (policy 3 1)
          (answers (\<lambda>k. Responds granted) (timeouts_then 3 (Responds bad_gateway))) (init 0)))
     = [1, 2, 4]"
  using exhausted_status_raises [of "policy 3 1"
      "answers (timeouts_then 3 (Responds bad_gateway)) (\<lambda>k. Responds busy)" "init 0"
      bad_gateway
      "answers (\<lambda>k. Responds granted) (timeouts_then 3 (Responds bad_gateway))"
      "policy 3 1" bad_gateway]
  by (simp add: policy_def answers_def timeouts_then_def bad_gateway_def granted_def init_def
      retryable_outcome_def token_granted_def RETRYABLE_STATUS_CODES_def
      RETRYABLE_EXCEPTIONS_def backoffs_def upt_conv_Cons del: upt_Suc)

text \<open>
  C6. When the first attempt of \<^verbatim>\<open>_post\<close> (its token obtained) receives a status that is
  neither 2xx nor one of 429, 500, 502, 503, 504, the call sends exactly one request to the
  resource endpoint, does not sleep after it, and raises the HTTP status error of that
  response.
\<close>

theorem post_no_retry_on_client_error:
  assumes "0 \<le> max_retries cfg"
    and "get_token acfg e s = (Inr tok, s1)"
    and "resource_endpoint e (resource_calls s1) = Responds r"
    and "status_code r \<notin> RETRYABLE_STATUS_CODES"
    and "status_code r < 200 \<or> 299 < status_code r"
  shows "post cfg acfg e s =
           (Inl (HTTPStatusError r),
            s1\<lparr>clock := clock s1 + resource_latency e (resource_calls s1),
               resource_calls := Suc (resource_calls s1)\<rparr>)
       \<and> resource_calls (snd (post cfg acfg e s)) = resource_calls s + 1
       \<and> sleeps (snd (post cfg acfg e s)) = sleeps s1"
proof -
  have r: "py_range (max_retries cfg + 1) = map int [0..<Suc (nat (max_retries cfg))]"
    using assms(1) by (rule py_range_Suc)
  have upt: "[0..<Suc (nat (max_retries cfg))] = 0 # [Suc 0..<Suc (nat (max_retries cfg))]"
    by (simp add: upt_conv_Cons)
  have att: "post_attempt cfg acfg e 0 None s =
      Raise (HTTPStatusError r)
        (s1\<lparr>clock := clock s1 + resource_latency e (resource_calls s1),
            resource_calls := Suc (resource_calls s1)\<rparr>)"
    using assms(2-5)
    by (auto simp: post_attempt_def post_try_def post_url_def accept_response_def
        raise_for_status_def)
  have rc: "resource_calls s1 = resource_calls s"
    using get_token_resource_calls [of acfg e s] assms(2) by simp
  show ?thesis
    unfolding post_def r upt by (simp add: att rc)
qed

theorem post_no_retry_on_client_error_witness:
  "post (policy 3 1) (policy 3 1) (serve (Responds granted) (Responds unauthorized)) cached
     = (Inl (HTTPStatusError unauthorized), cached\<lparr>resource_calls := 1\<rparr>)
   \<and> resource_calls
       (snd (post (policy 3 1) (policy 3 1) (serve (Responds granted) (Responds unauthorized))
          cached)) = 1
   \<and> sleeps
       (snd (post (policy 3 1) (policy 3 1) (serve (Responds granted) (Responds unauthorized))
          cached)) = []"
  using post_no_retry_on_client_error [of "policy 3 1" "policy 3 1"
      "serve (Responds granted) (Responds unauthorized)" cached "JStr ''T0''" cached
      unauthorized]
  by (simp add: policy_def serve_def unauthorized_def cached_def init_def get_token_def
      is_token_valid_def RETRYABLE_STATUS_CODES_def)

section \<open>Backoff\<close>

text \<open>
  C7. In both retry loops the delays slept are \<open>retry_backoff * 2 ^ attempt\<close> for the
  attempts \<open>0, 1, \<dots>, k - 1\<close>, where \<open>k \<le> max_retries\<close> is the number of retries made (one
  less than the number of requests): one sleep before each retry, none after the last
  attempt. When every outcome is retryable the delays are those of the attempts
  \<open>0, \<dots>, max_retries - 1\<close>. For \<^verbatim>\<open>_post\<close> the token endpoint grants a token to each of its
  requests, so that the delays are those of the executor alone.
\<close>

theorem backoff_growth:
  assumes "0 \<le> max_retries cfg"
    and "\<forall>k. token_granted (token_endpoint re k)" and "0 \<le> max_retries acfg"
  shows "(\<exists>k. int k \<le> max_retries cfg
            \<and> token_calls (snd (refresh_token cfg te s)) = token_calls s + (k + 1)
            \<and> sleeps (snd (refresh_token cfg te s)) = sleeps s @ backoffs cfg 0 k)
       \<and> (\<exists>k. int k \<le> max_retries cfg
            \<and> resource_calls (snd (post cfg acfg re s)) = resource_calls s + (k + 1)
            \<and> sleeps (snd (post cfg acfg re s)) = sleeps s @ backoffs cfg 0 k)
       \<and> (0 \<le> retry_backoff cfg \<and> (\<forall>k. retryable_outcome (token_endpoint te k)) \<longrightarrow>
            sleeps (snd (refresh_token cfg te s))
              = sleeps s @ backoffs cfg 0 (nat (max_retries cfg)))
       \<and> (0 \<le> retry_backoff cfg \<and> (\<forall>k. retryable_outcome (resource_endpoint re k)) \<longrightarrow>
            sleeps (snd (post cfg acfg re s))
              = sleeps s @ backoffs cfg 0 (nat (max_retries cfg)))"
proof -
  have m: "max_retries cfg = int (nat (max_retries cfg))" using assms(1) by simp
  have r: "py_range (max_retries cfg + 1) = map int [0..<Suc (nat (max_retries cfg))]"
    using assms(1) by (rule py_range_Suc)
  from refresh_loop_sleeps [OF m, of 0 te None s]
  obtain k where k: "k \<le> nat (max_retries cfg)"
    "token_calls (snd (refresh_token cfg te s)) = token_calls s + (k + 1)"
    "sleeps (snd (refresh_token cfg te s)) = sleeps s @ backoffs cfg 0 k"
    by (auto simp: refresh_token_def r simp del: upt_Suc)
  from post_loop_sleeps [OF assms(2) assms(3) m, of 0 None s]
  obtain j where j: "j \<le> nat (max_retries cfg)"
    "resource_calls (snd (post cfg acfg re s)) = resource_calls s + (j + 1)"
    "sleeps (snd (post cfg acfg re s)) = sleeps s @ backoffs cfg 0 j"
    by (auto simp: post_def r simp del: upt_Suc)
  have A: "\<exists>k. int k \<le> max_retries cfg
            \<and> token_calls (snd (refresh_token cfg te s)) = token_calls s + (k + 1)
            \<and> sleeps (snd (refresh_token cfg te s)) = sleeps s @ backoffs cfg 0 k"
    using k assms(1) by (intro exI [of _ k]) simp
  have B: "\<exists>k. int k \<le> max_retries cfg
            \<and> resource_calls (snd (post cfg acfg re s)) = resource_calls s + (k + 1)
            \<and> sleeps (snd (post cfg acfg re s)) = sleeps s @ backoffs cfg 0 k"
    using j assms(1) by (intro exI [of _ j]) simp
  have C: "sleeps (snd (refresh_token cfg te s))
              = sleeps s @ backoffs cfg 0 (nat (max_retries cfg))"
    if "0 \<le> retry_backoff cfg \<and> (\<forall>k. retryable_outcome (token_endpoint te k))"
    using refresh_loop_exhaust [of te cfg "nat (max_retries cfg)" 0 None s] that m
    by (simp add: refresh_token_def r del: upt_Suc)
  have D: "sleeps (snd (post cfg acfg re s))
              = sleeps s @ backoffs cfg 0 (nat (max_retries cfg))"
    if "0 \<le> retry_backoff cfg \<and> (\<forall>k. retryable_outcome (resource_endpoint re k))"
    using post_loop_exhaust [of re acfg cfg "nat (max_retries cfg)" 0 None s] that m assms(2,3)
    by (simp add: post_def r del: upt_Suc)
  from A B C D show ?thesis by blast
qed

theorem backoff_growth_witness:
  "sleeps (snd (refresh_token (policy 3 (1/2)) (serve (Responds busy) (Responds busy)) (init 0)))
     = [1/2, 1, 2]
   \<and> sleeps (snd (post (policy 3 (1/2)) (policy 3 (1/2))
        (serve (Responds granted) (Raises ConnectTimeout)) (init 0)))
     = [1/2, 1, 2]"
  using backoff_growth [of "policy 3 (1/2)" "serve (Responds granted) (Raises ConnectTimeout)"
      "policy 3 (1/2)" "serve (Responds busy) (Responds busy)" "init 0"]
  by (simp add: policy_def serve_def busy_def granted_def init_def retryable_outcome_def
      token_granted_def RETRYABLE_STATUS_CODES_def RETRYABLE_EXCEPTIONS_def
      backoffs_def upt_conv_Cons del: upt_Suc)

section \<open>Parsing the token response\<close>

text \<open>
  C8. A token response object that has an \<^verbatim>\<open>access_token\<close> is accepted, a missing
  \<^verbatim>\<open>token_type\<close> read as \<open>Bearer\<close>, a missing \<^verbatim>\<open>expires_in\<close> as 900 and a missing
  \<^verbatim>\<open>scope\<close> as the empty string; with a 2xx status and no \<^verbatim>\<open>expires_in\<close> the stored
  expiry is the time of the answer plus 900. A 2xx response object without
  \<^verbatim>\<open>access_token\<close> raises \<open>KeyError\<close> at once, at any attempt, and nothing is retried.
\<close>

theorem token_response_defaults:
  "(map_of kvs ''access_token'' = Some tok \<longrightarrow>
      (\<exists>tr. make_token_response (JDict kvs) = Inr tr \<and> access_token tr = tok
         \<and> (map_of kvs ''token_type'' = None \<longrightarrow> token_type tr = JStr ''Bearer'')
         \<and> (map_of kvs ''expires_in'' = None \<longrightarrow> expires_in tr = JNum 900)
         \<and> (map_of kvs ''scope'' = None \<longrightarrow> scope tr = JStr '''')))
   \<and> (token_endpoint e (token_calls s) = Responds r
        \<and> 200 \<le> status_code r \<and> status_code r \<le> 299 \<and> body r = Some (JDict kvs)
        \<and> map_of kvs ''access_token'' = Some tok \<and> map_of kvs ''expires_in'' = None \<longrightarrow>
      refresh_loop cfg e (attempt # rest) lx s =
        (Inr tok,
         s\<lparr>self_access_token := tok,
           self_token_expiry := clock s + token_latency e (token_calls s) + 900,
           clock := clock s + token_latency e (token_calls s),
           token_calls := Suc (token_calls s)\<rparr>))
   \<and> (token_endpoint e (token_calls s) = Responds r
        \<and> 200 \<le> status_code r \<and> status_code r \<le> 299 \<and> body r = Some (JDict kvs)
        \<and> map_of kvs ''access_token'' = None \<longrightarrow>
      refresh_loop cfg e (attempt # rest) lx s =
        (Inl (KeyError ''access_token''),
         s\<lparr>clock := clock s + token_latency e (token_calls s),
           token_calls := Suc (token_calls s)\<rparr>))"
proof (intro conjI impI)
  assume "map_of kvs ''access_token'' = Some tok"
  then show "\<exists>tr. make_token_response (JDict kvs) = Inr tr \<and> access_token tr = tok
         \<and> (map_of kvs ''token_type'' = None \<longrightarrow> token_type tr = JStr ''Bearer'')
         \<and> (map_of kvs ''expires_in'' = None \<longrightarrow> expires_in tr = JNum 900)
         \<and> (map_of kvs ''scope'' = None \<longrightarrow> scope tr = JStr '''')"
    by (auto simp: make_token_response_def getitem_def get_def split: option.splits)
next
  assume a: "token_endpoint e (token_calls s) = Responds r
        \<and> 200 \<le> status_code r \<and> status_code r \<le> 299 \<and> body r = Some (JDict kvs)
        \<and> map_of kvs ''access_token'' = Some tok \<and> map_of kvs ''expires_in'' = None"
  then have "status_code r \<notin> RETRYABLE_STATUS_CODES" by (simp add: success_not_retryable)
  with a show "refresh_loop cfg e (attempt # rest) lx s =
        (Inr tok,
         s\<lparr>self_access_token := tok,
           self_token_expiry := clock s + token_latency e (token_calls s) + 900,
           clock := clock s + token_latency e (token_calls s),
           token_calls := Suc (token_calls s)\<rparr>)"
    by (simp add: attempt_defs raise_for_status_def response_json_def make_token_response_def
        getitem_def get_def float_add_def split: option.splits)
next
  assume a: "token_endpoint e (token_calls s) = Responds r
        \<and> 200 \<le> status_code r \<and> status_code r \<le> 299 \<and> body r = Some (JDict kvs)
        \<and> map_of kvs ''access_token'' = None"
  then have "status_code r \<notin> RETRYABLE_STATUS_CODES" by (simp add: success_not_retryable)
  with a show "refresh_loop cfg e (attempt # rest) lx s =
        (Inl (KeyError ''access_token''),
         s\<lparr>clock := clock s + token_latency e (token_calls s),
           token_calls := Suc (token_calls s)\<rparr>)"
    by (simp add: attempt_defs raise_for_status_def response_json_def make_token_response_def
        getitem_def RETRYABLE_EXCEPTIONS_def)
qed

theorem token_response_defaults_witness:
  "make_token_response (JDict [(''access_token'', JStr ''T1'')])
     = Inr \<lparr>access_token = JStr ''T1'', token_type = JStr ''Bearer'',
            expires_in = JNum 900, scope = JStr ''''\<rparr>
   \<and> refresh_loop (policy 3 1) (serve (Responds bare_grant) (Responds busy)) [0, 1, 2, 3] None
       (init 50)
     = (Inr (JStr ''T1''),
        (init 50)\<lparr>self_access_token := JStr ''T1'', self_token_expiry := 950,
           token_calls := 1\<rparr>)
   \<and> refresh_loop (policy 3 1) (serve (Responds no_token_grant) (Responds busy)) [0, 1, 2, 3]
       None (init 50)
     = (Inl (KeyError ''access_token''), (init 50)\<lparr>token_calls := 1\<rparr>)"
  using token_response_defaults [of "[(''access_token'', JStr ''T1'')]" "JStr ''T1''"
      "serve (Responds bare_grant) (Responds busy)" "init 50" bare_grant "policy 3 1" 0
      "[1, 2, 3]" None]
    token_response_defaults [of "[(''token_type'', JStr ''Bearer'')]" "JStr ''T1''"
      "serve (Responds no_token_grant) (Responds busy)" "init 50" no_token_grant "policy 3 1" 0
      "[1, 2, 3]" None]
  by (simp add: policy_def serve_def bare_grant_def no_token_grant_def init_def
      make_token_response_def getitem_def get_def)

section \<open>Caching\<close>

lemma refresh_token_first_granted:
  assumes "0 \<le> max_retries cfg"
    and "token_endpoint e (token_calls s) = Responds r"
    and "200 \<le> status_code r" and "status_code r \<le> 299"
    and "body r = Some (JDict kvs)"
    and "map_of kvs ''access_token'' = Some t"
    and "map_of kvs ''expires_in'' = Some (JNum x)"
  shows "refresh_token cfg e s =
     (Inr t, s\<lparr>self_access_token := t,
               self_token_expiry := clock s + token_latency e (token_calls s) + x,
               clock := clock s + token_latency e (token_calls s),
               token_calls := Suc (token_calls s)\<rparr>)"
proof -
  have r: "py_range (max_retries cfg + 1) = map int [0..<Suc (nat (max_retries cfg))]"
    using assms(1) by (rule py_range_Suc)
  have upt: "[0..<Suc (nat (max_retries cfg))] = 0 # [Suc 0..<Suc (nat (max_retries cfg))]"
    by (simp add: upt_conv_Cons)
  have "status_code r \<notin> RETRYABLE_STATUS_CODES"
    using assms(3,4) by (rule success_not_retryable)
  then have "refresh_attempt cfg e 0 None s =
     Return t (s\<lparr>self_access_token := t,
               self_token_expiry := clock s + token_latency e (token_calls s) + x,
               clock := clock s + token_latency e (token_calls s),
               token_calls := Suc (token_calls s)\<rparr>)"
    using assms(2-7)
    by (simp add: attempt_defs raise_for_status_def response_json_def make_token_response_def
        getitem_def get_def float_add_def split: option.splits)
  then show ?thesis
    unfolding refresh_token_def r upt by simp
qed

text \<open>
  C2. When the cached token is valid, \<^verbatim>\<open>get_token\<close> returns it and changes nothing: no
  request is sent. Hence a second \<^verbatim>\<open>get_token\<close> right after one that returned a token
  which is valid returns the same token and sends nothing; and when the first call finds
  no valid token and the token endpoint grants one that outlives the 60 second margin, the
  two calls together send exactly one request to the token endpoint, the first call's.
\<close>

theorem get_token_cached:
  "(is_token_valid s \<longrightarrow> get_token cfg e s = (Inr (self_access_token s), s))
   \<and> (get_token cfg e s = (Inr t, s1) \<and> is_token_valid s1 \<longrightarrow>
        get_token cfg e s1 = (Inr t, s1))
   \<and> (\<not> is_token_valid s \<and> 0 \<le> max_retries cfg
        \<and> token_endpoint e (token_calls s) = Responds r
        \<and> 200 \<le> status_code r \<and> status_code r \<le> 299 \<and> body r = Some (JDict kvs)
        \<and> map_of kvs ''access_token'' = Some t \<and> truthy t
        \<and> map_of kvs ''expires_in'' = Some (JNum x) \<and> 60 < x \<longrightarrow>
        fst (get_token cfg e s) = Inr t
        \<and> fst (get_token cfg e (snd (get_token cfg e s))) = Inr t
        \<and> token_calls (snd (get_token cfg e s)) = token_calls s + 1
        \<and> token_calls (snd (get_token cfg e (snd (get_token cfg e s)))) = token_calls s + 1)"
proof -
  have A: "get_token cfg e s = (Inr (self_access_token s), s)" if "is_token_valid s"
    using that by (simp add: get_token_def)
  have B: "get_token cfg e s1 = (Inr t, s1)"
    if a: "get_token cfg e s = (Inr t, s1) \<and> is_token_valid s1"
  proof -
    from a have "self_access_token s1 = t" by (auto dest: get_token_Inr)
    with a show ?thesis by (simp add: get_token_def)
  qed
  have C: "fst (get_token cfg e s) = Inr t
        \<and> fst (get_token cfg e (snd (get_token cfg e s))) = Inr t
        \<and> token_calls (snd (get_token cfg e s)) = token_calls s + 1
        \<and> token_calls (snd (get_token cfg e (snd (get_token cfg e s)))) = token_calls s + 1"
    if a: "\<not> is_token_valid s \<and> 0 \<le> max_retries cfg
        \<and> token_endpoint e (token_calls s) = Responds r
        \<and> 200 \<le> status_code r \<and> status_code r \<le> 299 \<and> body r = Some (JDict kvs)
        \<and> map_of kvs ''access_token'' = Some t \<and> truthy t
        \<and> map_of kvs ''expires_in'' = Some (JNum x) \<and> 60 < x"
  proof -
    define s1 where "s1 = s\<lparr>self_access_token := t,
               self_token_expiry := clock s + token_latency e (token_calls s) + x,
               clock := clock s + token_latency e (token_calls s),
               token_calls := Suc (token_calls s)\<rparr>"
    from a have "refresh_token cfg e s = (Inr t, s1)"
      unfolding s1_def by (intro refresh_token_first_granted [of cfg e s r kvs t x]) simp_all
    with a have g1: "get_token cfg e s = (Inr t, s1)" by (simp add: get_token_def)
    have "is_token_valid s1" using a by (simp add: is_token_valid_def s1_def)
    then have g2: "get_token cfg e s1 = (Inr t, s1)" by (simp add: get_token_def s1_def)
    show ?thesis by (simp add: g1 g2) (simp add: s1_def)
  qed
  from A B C show ?thesis by blast
qed

theorem get_token_cached_witness:
  "get_token (policy 3 1) (serve (Responds granted) (Responds busy)) cached
     = (Inr (JStr ''T0''), cached)
   \<and> fst (get_token (policy 3 1) (serve (Responds granted) (Responds busy)) (init 0))
     = Inr (JStr ''T1'')
   \<and> fst (get_token (policy 3 1) (serve (Responds granted) (Responds busy))
        (snd (get_token (policy 3 1) (serve (Responds granted) (Responds busy)) (init 0))))
     = Inr (JStr ''T1'')
   \<and> token_calls
       (snd (get_token (policy 3 1) (serve (Responds granted) (Responds busy))
          (snd (get_token (policy 3 1) (serve (Responds granted) (Responds busy)) (init 0)))))
     = 1"
  using get_token_cached [of cached "policy 3 1" "serve (Responds granted) (Responds busy)"
      "JStr ''T0''" cached granted
      "[(''access_token'', JStr ''T1''), (''expires_in'', JNum 900)]" 900]
    get_token_cached [of "init 0" "policy 3 1" "serve (Responds granted) (Responds busy)"
      "JStr ''T1''" "init 0" granted
      "[(''access_token'', JStr ''T1''), (''expires_in'', JNum 900)]" 900]
  by (simp add: policy_def serve_def granted_def cached_def init_def is_token_valid_def)

section \<open>The blocking and the cooperative variants\<close>

lemma async_store_token_eq:
  "async_store_token data s =
     (case make_token_response data of Inl err \<Rightarrow> Raise err s | Inr tr \<Rightarrow> store_token tr s)"
  by (cases data)
     (auto simp: async_store_token_def make_token_response_def getitem_def get_def
        store_token_def Let_def split: option.splits sum.splits)

lemma async_accept_token_response_eq:
  "async_accept_token_response r s = accept_token_response r s"
  by (simp add: async_accept_token_response_def accept_token_response_def
      async_store_token_eq split: sum.splits)

lemma async_backoff_sleep_eq:
  "0 \<le> retry_backoff cfg \<Longrightarrow> async_backoff_sleep cfg attempt l s = backoff_sleep cfg attempt l s"
  by (auto simp: async_backoff_sleep_def asyncio_sleep_def backoff_sleep_ok
      zero_le_mult_iff dest: antisym)

lemma async_except_retryable_eq:
  "0 \<le> retry_backoff cfg \<Longrightarrow>
     async_except_retryable cfg attempt ex s = except_retryable cfg attempt ex s"
  by (simp add: async_except_retryable_def except_retryable_def async_backoff_sleep_eq)

lemma async_refresh_try_eq:
  "0 \<le> retry_backoff cfg \<Longrightarrow>
     async_refresh_try cfg e attempt lx s = refresh_try cfg e attempt lx s"
  by (simp add: async_refresh_try_def refresh_try_def async_accept_token_response_eq
      async_backoff_sleep_eq split: prod.splits outcome.splits)

lemma async_refresh_attempt_eq:
  "0 \<le> retry_backoff cfg \<Longrightarrow>
     async_refresh_attempt cfg e attempt lx s = refresh_attempt cfg e attempt lx s"
  by (simp add: async_refresh_attempt_def refresh_attempt_def async_refresh_try_eq
      async_except_retryable_eq split: control.splits)

lemma async_refresh_loop_eq:
  "0 \<le> retry_backoff cfg \<Longrightarrow>
     async_refresh_loop cfg e as lx s = refresh_loop cfg e as lx s"
  by (induction as arbitrary: lx s) (simp_all add: async_refresh_attempt_eq split: control.splits)

lemma async_get_token_eq:
  "0 \<le> retry_backoff acfg \<Longrightarrow> async_get_token acfg e s = get_token acfg e s"
  by (simp add: async_get_token_def get_token_def async_refresh_token_def refresh_token_def
      async_refresh_loop_eq)

lemma async_post_try_eq:
  "0 \<le> retry_backoff cfg \<Longrightarrow> 0 \<le> retry_backoff acfg \<Longrightarrow>
     async_post_try cfg acfg e attempt lx s = post_try cfg acfg e attempt lx s"
  by (simp add: async_post_try_def post_try_def async_get_token_eq async_backoff_sleep_eq
      split: prod.splits outcome.splits sum.splits)

lemma async_post_attempt_eq:
  "0 \<le> retry_backoff cfg \<Longrightarrow> 0 \<le> retry_backoff acfg \<Longrightarrow>
     async_post_attempt cfg acfg e attempt lx s = post_attempt cfg acfg e attempt lx s"
  by (simp add: async_post_attempt_def post_attempt_def async_post_try_eq
      async_except_retryable_eq split: control.splits)

lemma post_attempt_Continue_lt:
  "post_attempt cfg acfg e attempt lx s = Continue l s2 \<Longrightarrow> attempt < max_retries cfg"
  by (auto simp: post_defs split: prod.splits outcome.splits sum.splits control.splits if_splits)

text \<open>With a first attempt, the code after the loop of \<^verbatim>\<open>_post\<close> is never reached, so its
  message does not matter.\<close>

lemma async_post_loop_eq:
  assumes b: "0 \<le> retry_backoff cfg" "0 \<le> retry_backoff acfg"
    and m: "max_retries cfg = int m"
  shows "a \<le> m \<Longrightarrow>
    async_post_loop cfg acfg e (map int [a..<Suc m]) lx s
      = post_loop cfg acfg e (map int [a..<Suc m]) lx s"
proof (induction "m - a" arbitrary: a lx s)
  case 0
  then have eq: "a = m" by simp
  have nc: "post_attempt cfg acfg e (int m) lx s \<noteq> Continue l s2" for l s2
    using post_attempt_Continue_lt [of cfg acfg e "int m" lx s l s2] m by auto
  show ?case
  proof (cases "post_attempt cfg acfg e (int m) lx s")
    case (Continue l s2)
    with nc show ?thesis by blast
  next
    case (Return v s2)
    then show ?thesis by (simp add: eq async_post_attempt_eq [OF b])
  next
    case (Raise ex s2)
    then show ?thesis by (simp add: eq async_post_attempt_eq [OF b])
  qed
next
  case (Suc d)
  then have lt: "a < m" and d: "d = m - Suc a" and le: "Suc a \<le> m" by simp_all
  have upt: "[a..<Suc m] = a # [Suc a..<Suc m]" using lt by (simp add: upt_conv_Cons)
  show ?case
    using Suc.hyps(1) [OF d le]
    by (simp add: upt async_post_attempt_eq [OF b] del: upt_Suc split: control.splits)
qed

text \<open>
  C9. On the same answers of the endpoints, from the same state, the cooperative variants
  do what the blocking ones do: \<^verbatim>\<open>AsyncAuthClient._refresh_token\<close> and
  \<^verbatim>\<open>AuthClient._refresh_token\<close> return the same token or raise the same error and leave the
  same cache, clock, request counts and delays, and so do \<^verbatim>\<open>AsyncInsightsClient._post\<close>
  and \<^verbatim>\<open>InsightsClient._post\<close>. The delay is not negative (\<^verbatim>\<open>time.sleep\<close> refuses a
  negative one, \<^verbatim>\<open>asyncio.sleep\<close> does not), and \<^verbatim>\<open>_post\<close> has a first attempt.
\<close>

theorem async_equivalence:
  "(0 \<le> retry_backoff cfg \<longrightarrow> async_refresh_token cfg e s = refresh_token cfg e s)
   \<and> (0 \<le> max_retries cfg \<and> 0 \<le> retry_backoff cfg \<and> 0 \<le> retry_backoff acfg \<longrightarrow>
        async_post cfg acfg e s = post cfg acfg e s)"
proof -
  have A: "async_refresh_token cfg e s = refresh_token cfg e s" if "0 \<le> retry_backoff cfg"
    using that by (simp add: async_refresh_token_def refresh_token_def async_refresh_loop_eq)
  have B: "async_post cfg acfg e s = post cfg acfg e s"
    if a: "0 \<le> max_retries cfg \<and> 0 \<le> retry_backoff cfg \<and> 0 \<le> retry_backoff acfg"
  proof -
    from a have m: "max_retries cfg = int (nat (max_retries cfg))" by simp
    from a have r: "py_range (max_retries cfg + 1) = map int [0..<Suc (nat (max_retries cfg))]"
      by (simp add: py_range_Suc)
    from a async_post_loop_eq [OF _ _ m, of acfg 0 e None s]
    show ?thesis by (simp add: async_post_def post_def r del: upt_Suc)
  qed
  from A B show ?thesis by blast
qed

theorem async_equivalence_witness:
  "async_refresh_token (policy 2 1) (serve (Responds busy) (Responds busy)) (init 0)
     = refresh_token (policy 2 1) (serve (Responds busy) (Responds busy)) (init 0)
   \<and> async_post (policy 2 1) (policy 2 1) (serve (Responds granted) (Responds busy)) (init 0)
     = post (policy 2 1) (policy 2 1) (serve (Responds granted) (Responds busy)) (init 0)"
  using async_equivalence [of "policy 2 1" "serve (Responds busy) (Responds busy)" "init 0"
      "policy 2 1"]
    async_equivalence [of "policy 2 1" "serve (Responds granted) (Responds busy)" "init 0"
      "policy 2 1"]
  by (simp add: policy_def)

section \<open>Retries of the executor around retries of the auth client\<close>

lemma unreachable_retryable: "unreachable out \<Longrightarrow> retryable_outcome out"
  by (cases out) (simp_all add: unreachable_def retryable_outcome_def)

lemma unreachable_terminal: "unreachable out \<Longrightarrow> terminal_error out \<in> RETRYABLE_EXCEPTIONS"
  by (cases out) (simp_all add: unreachable_def terminal_error_def)

lemma get_token_unreachable:
  assumes down: "\<forall>k. unreachable (token_endpoint e k)"
    and b: "0 \<le> retry_backoff acfg" and ma: "max_retries acfg = int ma"
    and nt: "\<not> truthy (self_access_token s)"
  shows "\<exists>s1. get_token acfg e s = (Inl (terminal_error (token_endpoint e (token_calls s + ma))), s1)
           \<and> token_calls s1 = token_calls s + Suc ma
           \<and> self_access_token s1 = self_access_token s
           \<and> resource_calls s1 = resource_calls s"
proof -
  have retr: "\<forall>k. retryable_outcome (token_endpoint e k)"
    using down by (simp add: unreachable_retryable)
  have r: "py_range (max_retries acfg + 1) = map int [0..<Suc ma]"
    using ma by (simp add: py_range_def nat_add_distrib)
  have g: "get_token acfg e s = refresh_loop acfg e (map int [0..<Suc ma]) None s"
    using nt by (simp add: get_token_def is_token_valid_def refresh_token_def r del: upt_Suc)
  from refresh_loop_exhaust [OF retr b ma, of 0 None s]
  show ?thesis
    unfolding g
    by (intro exI [of _ "snd (refresh_loop acfg e (map int [0..<Suc ma]) None s)"])
       (simp add: prod_eq_iff del: upt_Suc)
qed

lemma post_attempt_token_failed:
  assumes "get_token acfg e s = (Inl ex, s1)" and "ex \<in> RETRYABLE_EXCEPTIONS"
  shows "attempt < max_retries cfg \<Longrightarrow> 0 \<le> retry_backoff cfg \<Longrightarrow>
           post_attempt cfg acfg e attempt lx s =
             Continue (Some ex)
               (s1\<lparr>clock := clock s1 + retry_backoff cfg * 2 ^ nat attempt,
                   sleeps := sleeps s1 @ [retry_backoff cfg * 2 ^ nat attempt]\<rparr>)"
    and "\<not> attempt < max_retries cfg \<Longrightarrow>
           post_attempt cfg acfg e attempt lx s = Raise ex s1"
  using assms
  by (simp_all add: post_attempt_def post_try_def except_retryable_def backoff_sleep_ok)

lemma post_loop_unreachable:
  assumes down: "\<forall>k. unreachable (token_endpoint e k)"
    and b: "0 \<le> retry_backoff cfg" "0 \<le> retry_backoff acfg"
    and m: "max_retries cfg = int m" and ma: "max_retries acfg = int ma"
  shows "a \<le> m \<Longrightarrow> \<not> truthy (self_access_token s) \<Longrightarrow>
    fst (post_loop cfg acfg e (map int [a..<Suc m]) lx s)
      = Inl (terminal_error (token_endpoint e (token_calls s + (m - a) * Suc ma + ma)))
    \<and> token_calls (snd (post_loop cfg acfg e (map int [a..<Suc m]) lx s))
      = token_calls s + (Suc m - a) * Suc ma
    \<and> resource_calls (snd (post_loop cfg acfg e (map int [a..<Suc m]) lx s))
      = resource_calls s"
proof (induction "m - a" arbitrary: a lx s)
  case 0
  then have eq: "a = m" by simp
  from get_token_unreachable [OF down b(2) ma "0.prems"(2)] obtain s1 where
    g: "get_token acfg e s = (Inl (terminal_error (token_endpoint e (token_calls s + ma))), s1)"
       "token_calls s1 = token_calls s + Suc ma" "resource_calls s1 = resource_calls s"
    by blast
  have "\<not> int m < max_retries cfg" using m by simp
  from post_attempt_token_failed(2) [OF g(1) unreachable_terminal [OF down [rule_format]] this]
  show ?case using g by (simp add: eq)
next
  case (Suc d)
  then have lt: "a < m" and d: "d = m - Suc a" and le: "Suc a \<le> m" by simp_all
  have upt: "[a..<Suc m] = a # [Suc a..<Suc m]" using lt by (simp add: upt_conv_Cons)
  from get_token_unreachable [OF down b(2) ma Suc.prems(2)] obtain s1 where
    g: "get_token acfg e s = (Inl (terminal_error (token_endpoint e (token_calls s + ma))), s1)"
       "token_calls s1 = token_calls s + Suc ma" "resource_calls s1 = resource_calls s"
       "self_access_token s1 = self_access_token s"
    by blast
  define s2 where "s2 = s1\<lparr>clock := clock s1 + retry_backoff cfg * 2 ^ nat (int a),
                   sleeps := sleeps s1 @ [retry_backoff cfg * 2 ^ nat (int a)]\<rparr>"
  have "int a < max_retries cfg" using m lt by simp
  from post_attempt_token_failed(1) [OF g(1) unreachable_terminal [OF down [rule_format]]
      this b(1)]
  have att: "post_attempt cfg acfg e (int a) lx s =
      Continue (Some (terminal_error (token_endpoint e (token_calls s + ma)))) s2"
    by (simp add: s2_def)
  have nt: "\<not> truthy (self_access_token s2)"
    using Suc.prems(2) g(4) by (simp add: s2_def)
  have s2f: "token_calls s2 = token_calls s + Suc ma" "resource_calls s2 = resource_calls s"
    using g by (simp_all add: s2_def)
  define j where "j = m - Suc a"
  have j: "m - a = Suc j" "Suc m - a = Suc (Suc j)" "m - Suc a = j"
    using lt by (simp_all add: j_def)
  from Suc.hyps(1) [OF d le nt, of "Some (terminal_error (token_endpoint e (token_calls s + ma)))"]
  show ?case
    unfolding upt by (simp add: att s2f j ac_simps del: upt_Suc)
qed

text \<open>
  C10. \<^verbatim>\<open>_post\<close> asks for the token inside its retry loop, in every attempt. With
  \<open>max_retries = N\<close> on both clients, one call of \<^verbatim>\<open>_post\<close> sends at most
  \<open>(N + 1) * (N + 1)\<close> requests to the token endpoint. A retryable exception that
  \<^verbatim>\<open>get_token\<close> raises is caught by the \<^verbatim>\<open>except\<close> clause of \<^verbatim>\<open>_post\<close>, which sleeps and
  goes to its next attempt without a request to the resource endpoint. When the token
  endpoint cannot be reached and no token is cached, the call sends exactly
  \<open>(N + 1) * (N + 1)\<close> token requests and none to the resource endpoint before it raises
  a retryable transport exception.
\<close>

theorem nested_retries:
  assumes "0 \<le> max_retries cfg" and "max_retries acfg = max_retries cfg"
  shows "token_calls (snd (post cfg acfg e s))
           \<le> token_calls s + (nat (max_retries cfg) + 1) * (nat (max_retries cfg) + 1)
       \<and> (get_token acfg e s = (Inl ex, s1) \<and> ex \<in> RETRYABLE_EXCEPTIONS
            \<and> attempt < max_retries cfg \<and> 0 \<le> retry_backoff cfg \<longrightarrow>
            post_attempt cfg acfg e attempt lx s =
              Continue (Some ex)
                (s1\<lparr>clock := clock s1 + retry_backoff cfg * 2 ^ nat attempt,
                    sleeps := sleeps s1 @ [retry_backoff cfg * 2 ^ nat attempt]\<rparr>))
       \<and> ((\<forall>k. unreachable (token_endpoint e k)) \<and> \<not> truthy (self_access_token s)
            \<and> 0 \<le> retry_backoff cfg \<and> 0 \<le> retry_backoff acfg \<longrightarrow>
            token_calls (snd (post cfg acfg e s))
              = token_calls s + (nat (max_retries cfg) + 1) * (nat (max_retries cfg) + 1)
            \<and> resource_calls (snd (post cfg acfg e s)) = resource_calls s
            \<and> (\<exists>ex'. fst (post cfg acfg e s) = Inl ex' \<and> ex' \<in> RETRYABLE_EXCEPTIONS))"
proof -
  define n where "n = nat (max_retries cfg)"
  have m: "max_retries cfg = int n" and ma: "max_retries acfg = int n"
    using assms by (simp_all add: n_def)
  have r: "py_range (max_retries cfg + 1) = map int [0..<Suc n]"
    unfolding n_def using assms(1) by (rule py_range_Suc)
  have A: "token_calls (snd (post cfg acfg e s)) \<le> token_calls s + (n + 1) * (n + 1)"
    using post_loop_token_calls_le [of cfg acfg e "map int [0..<Suc n]" None s] ma
    by (simp add: post_def r nat_add_distrib del: upt_Suc)
  have B: "post_attempt cfg acfg e attempt lx s =
              Continue (Some ex)
                (s1\<lparr>clock := clock s1 + retry_backoff cfg * 2 ^ nat attempt,
                    sleeps := sleeps s1 @ [retry_backoff cfg * 2 ^ nat attempt]\<rparr>)"
    if "get_token acfg e s = (Inl ex, s1) \<and> ex \<in> RETRYABLE_EXCEPTIONS
            \<and> attempt < max_retries cfg \<and> 0 \<le> retry_backoff cfg"
    using that by (intro post_attempt_token_failed(1)) simp_all
  have C: "token_calls (snd (post cfg acfg e s)) = token_calls s + (n + 1) * (n + 1)
            \<and> resource_calls (snd (post cfg acfg e s)) = resource_calls s
            \<and> (\<exists>ex'. fst (post cfg acfg e s) = Inl ex' \<and> ex' \<in> RETRYABLE_EXCEPTIONS)"
    if a: "(\<forall>k. unreachable (token_endpoint e k)) \<and> \<not> truthy (self_access_token s)
            \<and> 0 \<le> retry_backoff cfg \<and> 0 \<le> retry_backoff acfg"
  proof -
    from a have down: "\<forall>k. unreachable (token_endpoint e k)" by simp
    from a post_loop_unreachable [OF down _ _ m ma, of 0 s None]
    have "fst (post cfg acfg e s)
        = Inl (terminal_error (token_endpoint e (token_calls s + n * Suc n + n)))"
      and "token_calls (snd (post cfg acfg e s)) = token_calls s + Suc n * Suc n"
      and "resource_calls (snd (post cfg acfg e s)) = resource_calls s"
      by (simp_all add: post_def r del: upt_Suc)
    with unreachable_terminal [OF down [rule_format]] show ?thesis by simp
  qed
  from A B C show ?thesis unfolding n_def by blast
qed

theorem nested_retries_witness:
  "token_calls (snd (post (policy 3 1) (policy 3 1)
       (serve (Raises ConnectError) (Responds busy)) (init 0))) = 16
   \<and> resource_calls (snd (post (policy 3 1) (policy 3 1)
       (serve (Raises ConnectError) (Responds busy)) (init 0))) = 0
   \<and> (\<exists>ex'. fst (post (policy 3 1) (policy 3 1)
       (serve (Raises ConnectError) (Responds busy)) (init 0)) = Inl ex'
         \<and> ex' \<in> RETRYABLE_EXCEPTIONS)
   \<and> (\<exists>s2. post_attempt (policy 3 1) (policy 3 1)
         (serve (Raises ConnectError) (Responds busy)) 0 None (init 0)
           = Continue (Some ConnectError) s2)"
proof -
  have "\<exists>s1. get_token (policy 3 1) (serve (Raises ConnectError) (Responds busy)) (init 0)
      = (Inl ConnectError, s1)"
    using get_token_unreachable
      [of "serve (Raises ConnectError) (Responds busy)" "policy 3 1" 3 "init 0"]
    by (auto simp: policy_def serve_def init_def unreachable_def terminal_error_def
        RETRYABLE_EXCEPTIONS_def)
  then obtain s1 where
    g: "get_token (policy 3 1) (serve (Raises ConnectError) (Responds busy)) (init 0)
      = (Inl ConnectError, s1)"
    by blast
  have ex: "ConnectError \<in> RETRYABLE_EXCEPTIONS" by (simp add: RETRYABLE_EXCEPTIONS_def)
  have dn: "\<forall>k. unreachable
      (token_endpoint (serve (Raises ConnectError) (Responds busy)) k)"
    by (simp add: serve_def unreachable_def RETRYABLE_EXCEPTIONS_def)
  from nested_retries [of "policy 3 1" "policy 3 1"
      "serve (Raises ConnectError) (Responds busy)" "init 0" ConnectError s1 0 None] g ex dn
  show ?thesis
    by (simp add: policy_def init_def)
qed

end
